theory Spec2Isabelle
  imports Main "HOL-Library.Multiset" "HOL-Library.AList"
begin

text \<open>
  A shallow embedding of the data layer of the analytics dashboard: the paginated user
  fetch of \<open>useUserData\<close>, the fetch functions of \<open>utils/dataFetchers.ts\<close> and the
  date filter of \<open>useAnalytics\<close>. The definitions come first, the properties after them.
\<close>

chapter \<open>Definitions\<close>

section \<open>The remote store as seen by the client\<close>

text \<open>
  Every query of the hosted store resolves to an object with two fields, \<open>data\<close> and
  \<open>error\<close>, which the source destructures and tests separately. The embedding keeps
  both fields, so that every combination the code can observe is an input of the model.
\<close>

record pg_error =
  code :: string
  message :: string

record 'a response =
  data :: "'a option"
  error :: "pg_error option"

section \<open>Paginated fetch of the user table (\<open>useUserData.fetchAllUsers\<close>)\<close>

text \<open>
  The loop asks for the row range \<open>[offset, offset + fetchSize - 1]\<close>, appends a
  non-empty page to \<open>allUsers\<close>, advances \<open>offset\<close> by the number of rows received
  and continues while the page held exactly \<open>fetchSize\<close> rows. A remote answers the
  \<open>k\<close>-th request of a fetch for a given range; it may answer differently from one
  request to the next, so the loop need not end and is a partial function: \<open>None\<close>
  stands for a fetch that never returns. The loop records every request with its answer.
\<close>

definition fetchSize :: nat where
  "fetchSize = 1000"

type_synonym 'r range_remote = "nat \<Rightarrow> nat \<Rightarrow> nat \<Rightarrow> 'r list response"

type_synonym 'r exchange = "(nat \<times> nat) \<times> 'r list response"

text \<open>
  \<^verbatim>\<open>if (data && data.length > 0) { allUsers.push(...data); offset += data.length; }\<close>
  and \<^verbatim>\<open>hasMore = data?.length === fetchSize\<close>.
\<close>

definition push_page :: "'r list \<Rightarrow> 'r list option \<Rightarrow> 'r list" where
  "push_page allUsers d = (case d of Some rows \<Rightarrow> if length rows > 0 then allUsers @ rows else allUsers | None \<Rightarrow> allUsers)"

definition advance :: "nat \<Rightarrow> 'r list option \<Rightarrow> nat" where
  "advance offset d = (case d of Some rows \<Rightarrow> if length rows > 0 then offset + length rows else offset | None \<Rightarrow> offset)"

definition has_more :: "'r list option \<Rightarrow> bool" where
  "has_more d = (case d of Some rows \<Rightarrow> length rows = fetchSize | None \<Rightarrow> False)"

partial_function (option) fetchAllUsers_loop ::
  "'r range_remote \<Rightarrow> 'r list \<Rightarrow> nat \<Rightarrow> 'r exchange list \<Rightarrow> ((pg_error + 'r list) \<times> 'r exchange list) option"
where
  "fetchAllUsers_loop remote allUsers offset trace =
     (let resp = remote (length trace) offset (offset + fetchSize - 1);
          trace' = trace @ [((offset, offset + fetchSize - 1), resp)]
      in case error resp of
           Some e \<Rightarrow> Some (Inl e, trace')
         | None \<Rightarrow>
             if has_more (data resp)
             then fetchAllUsers_loop remote (push_page allUsers (data resp)) (advance offset (data resp)) trace'
             else Some (Inr (push_page allUsers (data resp)), trace'))"

text \<open>
  The state owned by the hook: the exposed user list, the loading flag and the error
  message. \<open>fetchAllUsers\<close> raises the loading flag and clears the error, runs the
  loop, and either publishes and returns all rows, or (an error answer throws, and the
  handler catches it) sets the error message and returns the empty list. The handler does
  not touch the exposed user list; \<open>finally\<close> lowers the loading flag on both paths.
\<close>

record 'r user_data_state =
  users :: "'r list"
  loading :: bool
  error_state :: "string option"

record 'r fetch_outcome =
  returned :: "'r list"
  state :: "'r user_data_state"
  trace :: "'r exchange list"

definition fetchAllUsers :: "'r range_remote \<Rightarrow> 'r user_data_state \<Rightarrow> 'r fetch_outcome option" where
  "fetchAllUsers remote st =
     (let st1 = st\<lparr>loading := True, error_state := None\<rparr>
      in case fetchAllUsers_loop remote [] 0 [] of
           None \<Rightarrow> None
         | Some (Inr allUsers, tr) \<Rightarrow>
             Some \<lparr>returned = allUsers, state = st1\<lparr>users := allUsers, loading := False\<rparr>, trace = tr\<rparr>
         | Some (Inl e, tr) \<Rightarrow>
             Some \<lparr>returned = [],
                   state = st1\<lparr>error_state := Some ''Failed to fetch users'', loading := False\<rparr>,
                   trace = tr\<rparr>)"

text \<open>
  A store holding a fixed table of matching rows, already in the requested order, answers
  the inclusive range \<open>[from, to]\<close> with the rows at these positions, as many as exist, and
  never fails.
\<close>

definition table_remote :: "'r list \<Rightarrow> 'r range_remote" where
  "table_remote tbl k from to = \<lparr>data = Some (take (to + 1 - from) (drop from tbl)), error = None\<rparr>"

definition table_exchange :: "'r list \<Rightarrow> nat \<Rightarrow> 'r exchange" where
  "table_exchange tbl i =
     ((i * fetchSize, i * fetchSize + fetchSize - 1),
      \<lparr>data = Some (take fetchSize (drop (i * fetchSize) tbl)), error = None\<rparr>)"

definition page_rows :: "'r list response \<Rightarrow> nat" where
  "page_rows resp = (case data resp of None \<Rightarrow> 0 | Some rows \<Rightarrow> length rows)"

text \<open>
  The \<open>i\<close>-th request of a fetch whose earlier pages were all full, and the answer a
  remote gives to it.
\<close>

definition request_at :: "nat \<Rightarrow> nat \<times> nat" where
  "request_at i = (i * fetchSize, i * fetchSize + fetchSize - 1)"

definition answer_at :: "'r range_remote \<Rightarrow> nat \<Rightarrow> 'r list response" where
  "answer_at remote i = remote i (fst (request_at i)) (snd (request_at i))"

definition full_page :: "'r list response \<Rightarrow> bool" where
  "full_page resp = (error resp = None \<and> has_more (data resp))"

definition failed_outcome :: "'r user_data_state \<Rightarrow> 'r exchange list \<Rightarrow> 'r fetch_outcome" where
  "failed_outcome st tr =
     \<lparr>returned = [],
      state = st\<lparr>loading := False, error_state := Some ''Failed to fetch users''\<rparr>,
      trace = tr\<rparr>"

text \<open>A remote that serves one full page and is unavailable afterwards.\<close>

definition outage :: pg_error where
  "outage = \<lparr>code = ''503'', message = ''service unavailable''\<rparr>"

definition flaky_remote :: "nat range_remote" where
  "flaky_remote k from to =
     (if k = 0 then \<lparr>data = Some (replicate 1000 7), error = None\<rparr>
      else \<lparr>data = None, error = Some outage\<rparr>)"

definition stale_state :: "nat user_data_state" where
  "stale_state = \<lparr>users = [1, 2], loading = False, error_state = None\<rparr>"

section \<open>Queries and thrown errors (\<open>utils/dataFetchers.ts\<close>)\<close>

text \<open>
  A query is built by chaining calls on the client: the table, the selected columns and
  the sequence of filter, pagination and ordering steps, in the order of the calls. A
  filter value is what the call receives: a string, a number or \<open>null\<close>.
\<close>

datatype js_value = JNull | JStr string | JNum int

datatype step =
    Eq string js_value
  | Gte string js_value
  | Lte string js_value
  | NotIsNull string
  | Limit int
  | Range_rows int int
  | Order string bool
  | Single

record query =
  from_table :: string
  select_columns :: string
  steps :: "step list"

definition from_select :: "string \<Rightarrow> string \<Rightarrow> query" where
  "from_select tbl cols = \<lparr>from_table = tbl, select_columns = cols, steps = []\<rparr>"

definition chain :: "query \<Rightarrow> step \<Rightarrow> query" where
  "chain q s = q\<lparr>steps := steps q @ [s]\<rparr>"

text \<open>
  JavaScript truthiness of an optional string and of an optional number: an absent value,
  the empty string and zero are falsy.
\<close>

definition truthy_string :: "string option \<Rightarrow> bool" where
  "truthy_string v = (case v of None \<Rightarrow> False | Some s \<Rightarrow> s \<noteq> [])"

definition truthy_number :: "int option \<Rightarrow> bool" where
  "truthy_number v = (case v of None \<Rightarrow> False | Some n \<Rightarrow> n \<noteq> 0)"

definition js_string :: "string option \<Rightarrow> js_value" where
  "js_string v = (case v of None \<Rightarrow> JNull | Some s \<Rightarrow> JStr s)"

text \<open>
  \<open>handleSupabaseError\<close> throws \<^verbatim>\<open>new Error(`Failed to ${operation}: ${error.message}`)\<close>;
  every fetch function catches what its body throws, logs it and throws it again, so a
  thrown error is the left summand of the function's result. Reading a property of \<open>null\<close>
  throws a \<open>TypeError\<close>, whose message is the engine's.
\<close>

datatype thrown = Error string | TypeError

definition handleSupabaseError :: "pg_error \<Rightarrow> string \<Rightarrow> thrown" where
  "handleSupabaseError e operation = Error (''Failed to '' @ operation @ '': '' @ message e)"

subsection \<open>\<open>fetchAnalyticsEvents\<close>\<close>

record filters =
  userId :: "string option"
  eventType :: "string option"
  eventCategory :: "string option"
  eventAction :: "string option"
  startDate :: "string option"
  endDate :: "string option"
  limit :: "int option"
  offset :: "int option"

definition or_default :: "int option \<Rightarrow> int \<Rightarrow> int" where
  "or_default v d = (if truthy_number v then the v else d)"

definition chain_if :: "bool \<Rightarrow> step \<Rightarrow> query \<Rightarrow> query" where
  "chain_if c s q = (if c then chain q s else q)"

definition fetchAnalyticsEvents_query :: "filters \<Rightarrow> query" where
  "fetchAnalyticsEvents_query f =
     (let q = from_select ''user_analytics_events'' ''*, users(first_name, last_name, email)'';
          q = chain_if (truthy_string (userId f)) (Eq ''user_id'' (js_string (userId f))) q;
          q = chain_if (truthy_string (eventType f)) (Eq ''event_type'' (js_string (eventType f))) q;
          q = chain_if (truthy_string (eventCategory f))
                (Eq ''event_category'' (js_string (eventCategory f))) q;
          q = chain_if (truthy_string (eventAction f))
                (Eq ''event_action'' (js_string (eventAction f))) q;
          q = chain_if (truthy_string (startDate f)) (Gte ''created_at'' (js_string (startDate f))) q;
          q = chain_if (truthy_string (endDate f)) (Lte ''created_at'' (js_string (endDate f))) q;
          q = chain_if (truthy_number (limit f)) (Limit (the (limit f))) q;
          q = chain_if (truthy_number (offset f))
                (Range_rows (the (offset f)) (the (offset f) + or_default (limit f) 50 - 1)) q
      in chain q (Order ''created_at'' False))"

definition fetchAnalyticsEvents :: "(query \<Rightarrow> 'r list response) \<Rightarrow> filters \<Rightarrow> thrown + 'r list" where
  "fetchAnalyticsEvents remote f =
     (let resp = remote (fetchAnalyticsEvents_query f)
      in case error resp of
           Some e \<Rightarrow> Inl (handleSupabaseError e ''fetch analytics events'')
         | None \<Rightarrow> Inr (case data resp of None \<Rightarrow> [] | Some rows \<Rightarrow> rows))"

text \<open>The steps that restrict the number or the range of the rows.\<close>

definition is_limit :: "step \<Rightarrow> bool" where
  "is_limit s = (case s of Limit n \<Rightarrow> True | _ \<Rightarrow> False)"

definition is_range :: "step \<Rightarrow> bool" where
  "is_range s = (case s of Range_rows a b \<Rightarrow> True | _ \<Rightarrow> False)"


section \<open>Object records and their enumeration order\<close>

text \<open>
  The aggregations accumulate into plain objects (\<open>{}\<close>) used as \<open>Record<string, T>\<close>.
  Such an object is the list of its own properties in creation order; assigning to an
  existing key keeps the key's position (\<open>AList.update\<close>). A plain object inherits the
  members of \<open>Object.prototype\<close>: a read of a key it does not own yields the inherited
  member (a function, or the prototype itself under \<open>__proto__\<close>), which is truthy, when
  the key is the name of one, and \<open>undefined\<close> otherwise. An assignment creates an own
  property, except under \<open>__proto__\<close>, whose inherited setter ignores a value that is not
  an object. \<open>Object.entries\<close>, \<open>Object.values\<close> and \<open>Object.keys\<close> enumerate the own
  keys that are array indices (canonical decimal numerals below \<open>2^32 - 1\<close>) first, in
  ascending numeric order, and then all other own keys in creation order.
\<close>

definition prototype_members :: "string list" where
  "prototype_members =
     [''constructor'', ''__defineGetter__'', ''__defineSetter__'', ''hasOwnProperty'',
      ''__lookupGetter__'', ''__lookupSetter__'', ''isPrototypeOf'', ''propertyIsEnumerable'',
      ''toString'', ''valueOf'', ''__proto__'', ''toLocaleString'']"

definition inherited :: "string \<Rightarrow> bool" where
  "inherited k = (k \<in> set prototype_members)"

definition is_digit :: "char \<Rightarrow> bool" where
  "is_digit c = (c \<in> set ''0123456789'')"

definition digit_value :: "char \<Rightarrow> nat" where
  "digit_value c = of_char c - 48"

definition decimal_value :: "string \<Rightarrow> nat" where
  "decimal_value s = foldl (\<lambda>n c. 10 * n + digit_value c) 0 s"

definition is_array_index :: "string \<Rightarrow> bool" where
  "is_array_index s =
     (s \<noteq> [] \<and> list_all is_digit s \<and> (s = ''0'' \<or> hd s \<noteq> CHR ''0'')
      \<and> decimal_value s < 4294967295)"

definition Object_entries :: "(string \<times> 'v) list \<Rightarrow> (string \<times> 'v) list" where
  "Object_entries m =
     sort_key (decimal_value \<circ> fst) (filter (is_array_index \<circ> fst) m)
     @ filter (Not \<circ> is_array_index \<circ> fst) m"

definition Object_values :: "(string \<times> 'v) list \<Rightarrow> 'v list" where
  "Object_values m = map snd (Object_entries m)"

definition Object_keys :: "(string \<times> 'v) list \<Rightarrow> string list" where
  "Object_keys m = map fst (Object_entries m)"

text \<open>The same order on a list of distinct keys given in creation order.\<close>

definition enumeration_order :: "string list \<Rightarrow> string list" where
  "enumeration_order ks =
     sort_key decimal_value (filter is_array_index ks) @ filter (Not \<circ> is_array_index) ks"

section \<open>Rows of \<open>user_analytics_events\<close>\<close>

text \<open>
  The columns of the table that the fetch functions read. Timestamps are the instants the
  stored strings denote, in milliseconds since the epoch (\<open>new Date(s).getTime()\<close>). Field
  names are the source's; where several objects of the source share a field name, the
  later record prefixes it.
\<close>

record analytics_event =
  event_id :: string
  user_id :: "string option"
  session_id :: "string option"
  event_type :: string
  event_category :: "string option"
  event_action :: "string option"
  page_path :: "string option"
  page_section :: "string option"
  utm_campaign :: "string option"
  utm_source :: "string option"
  utm_medium :: "string option"
  created_at :: int

subsection \<open>\<open>fetchEventCountsByType\<close>\<close>

text \<open>
  The optional argument \<open>dateRange\<close> is an object \<open>{start, end}\<close>; the function tests the
  object, not its fields. \<^verbatim>\<open>eventCounts[t] = (eventCounts[t] || 0) + 1\<close> for every row, then
  one \<open>{eventType, count}\<close> per entry of the record, in enumeration order.

  A count is a number as long as the read yields a number or \<open>undefined\<close>. Under the name
  of an inherited member the first read yields that member, and \<open>+ 1\<close> appends the
  character \<open>1\<close> to its string conversion; the result is stored as an own property (not
  under \<open>__proto__\<close>, where the assignment is ignored), and every further row of the type
  appends another \<open>1\<close>. \<open>Appended k n\<close> stands for the string conversion of the member
  inherited under \<open>k\<close> followed by \<open>n\<close> characters \<open>1\<close>.
\<close>

datatype count_value = Number nat | Appended string nat

record date_range =
  range_start :: "string option"
  range_end :: "string option"

record event_type_count =
  ec_eventType :: string
  ec_count :: count_value

definition fetchEventCountsByType_query :: "date_range option \<Rightarrow> query" where
  "fetchEventCountsByType_query dateRange =
     (let q = from_select ''user_analytics_events'' ''event_type, created_at''
      in case dateRange of
           None \<Rightarrow> q
         | Some r \<Rightarrow> chain (chain q (Gte ''created_at'' (js_string (range_start r))))
                      (Lte ''created_at'' (js_string (range_end r))))"

definition count_event ::
  "(string \<times> count_value) list \<Rightarrow> analytics_event \<Rightarrow> (string \<times> count_value) list"
where
  "count_event eventCounts event =
     (case map_of eventCounts (event_type event) of
        Some (Number n) \<Rightarrow> AList.update (event_type event) (Number (n + 1)) eventCounts
      | Some (Appended k n) \<Rightarrow> AList.update (event_type event) (Appended k (n + 1)) eventCounts
      | None \<Rightarrow>
          if event_type event = ''__proto__'' then eventCounts
          else if inherited (event_type event)
          then AList.update (event_type event) (Appended (event_type event) 1) eventCounts
          else AList.update (event_type event) (Number 1) eventCounts)"

definition event_counts :: "analytics_event list \<Rightarrow> event_type_count list" where
  "event_counts rows =
     map (\<lambda>(type, count). \<lparr>ec_eventType = type, ec_count = count\<rparr>)
       (Object_entries (foldl count_event [] rows))"

definition or_empty :: "'r list option \<Rightarrow> 'r list" where
  "or_empty d = (case d of None \<Rightarrow> [] | Some rows \<Rightarrow> rows)"

definition fetchEventCountsByType ::
  "(query \<Rightarrow> analytics_event list response) \<Rightarrow> date_range option \<Rightarrow> thrown + event_type_count list"
where
  "fetchEventCountsByType remote dateRange =
     (let resp = remote (fetchEventCountsByType_query dateRange)
      in case error resp of
           Some e \<Rightarrow> Inl (handleSupabaseError e ''fetch event counts by type'')
         | None \<Rightarrow> Inr (event_counts (or_empty (data resp))))"

text \<open>Rows for examples: an event of a given type by a given user on a given page.\<close>

definition ev :: "string \<Rightarrow> string \<Rightarrow> string \<Rightarrow> int \<Rightarrow> analytics_event" where
  "ev t u p at =
     \<lparr>event_id = ''e'', user_id = Some u, session_id = None, event_type = t,
      event_category = None, event_action = None, page_path = Some p, page_section = None,
      utm_campaign = None, utm_source = None, utm_medium = None, created_at = at\<rparr>"

definition answering :: "'r list \<Rightarrow> query \<Rightarrow> 'r list response" where
  "answering rows q = \<lparr>data = Some rows, error = None\<rparr>"

text \<open>The distinct elements of a list in the order of their first occurrence.\<close>

definition first_seen :: "'a list \<Rightarrow> 'a list" where
  "first_seen xs = rev (remdups (rev xs))"


text \<open>The number of rows of an event type, and the order the claim about the counts asks for.\<close>

definition occurrences :: "string \<Rightarrow> analytics_event list \<Rightarrow> nat" where
  "occurrences t rows = length (filter (\<lambda>e. event_type e = t) rows)"


definition count_at_least :: "count_value \<Rightarrow> count_value \<Rightarrow> bool" where
  "count_at_least a b = (case (a, b) of (Number m, Number n) \<Rightarrow> n \<le> m | _ \<Rightarrow> False)"

definition descending_by_count :: "event_type_count list \<Rightarrow> bool" where
  "descending_by_count out = sorted_wrt (\<lambda>a b. count_at_least (ec_count a) (ec_count b)) out"

text \<open>Two events whose first type is the name of the inherited accessor \<open>__proto__\<close>.\<close>

definition proto_events :: "analytics_event list" where
  "proto_events = [ev ''__proto__'' ''u1'' ''/a'' 10, ev ''view'' ''u1'' ''/a'' 20]"

text \<open>Three events on two pages by two users: one \<open>view\<close>, then two \<open>click\<close>s.\<close>

definition three_events :: "analytics_event list" where
  "three_events = [ev ''view'' ''u1'' ''/a'' 10, ev ''click'' ''u1'' ''/a'' 20, ev ''click'' ''u2'' ''/b'' 30]"


section \<open>Date filter of the dashboard sections (\<open>hooks/useAnalytics.ts\<close>)\<close>

text \<open>
  Each section keeps a filter mode and a custom range \<open>{startDate, endDate}\<close> whose bounds
  may be \<open>null\<close>. \<open>getFilterDates\<close> turns them into the bounds of the fetch; the bounds of
  the modes \<open>daily\<close> and \<open>lastMonth\<close> are computed from the current date, which the
  embedding receives as the three strings the function derives from it (a fourth entry
  serves the realtime window of \<open>fetchRealtimeAnalytics\<close>).
\<close>

datatype filter_type = Daily | LastMonth | Custom

record date_bounds =
  bound_startDate :: "string option"
  bound_endDate :: "string option"

record clock =
  now_iso :: string
  last_month_iso :: string
  yesterday_iso :: string
  minutes_ago_iso :: "int \<Rightarrow> string"

definition getFilterDates :: "clock \<Rightarrow> filter_type \<Rightarrow> date_bounds \<Rightarrow> date_bounds" where
  "getFilterDates clk filterType customRange =
     (case filterType of
        LastMonth \<Rightarrow>
          \<lparr>bound_startDate = Some (last_month_iso clk), bound_endDate = Some (now_iso clk)\<rparr>
      | Custom \<Rightarrow>
          \<lparr>bound_startDate = bound_startDate customRange, bound_endDate = bound_endDate customRange\<rparr>
      | Daily \<Rightarrow>
          \<lparr>bound_startDate = Some (yesterday_iso clk), bound_endDate = Some (now_iso clk)\<rparr>)"

text \<open>
  The user list, the traffic sources and the page analytics restrict their query only when
  both bounds are truthy:
  \<^verbatim>\<open>if (startDate && endDate) query = query.gte('created_at', startDate).lte('created_at', endDate)\<close>.
\<close>

definition with_dates :: "date_bounds \<Rightarrow> query \<Rightarrow> query" where
  "with_dates d q =
     (if truthy_string (bound_startDate d) \<and> truthy_string (bound_endDate d)
      then chain (chain q (Gte ''created_at'' (js_string (bound_startDate d))))
             (Lte ''created_at'' (js_string (bound_endDate d)))
      else q)"

definition fetchUsers_query :: "clock \<Rightarrow> filter_type \<Rightarrow> date_bounds \<Rightarrow> query" where
  "fetchUsers_query clk userFilterType customUserDateRange =
     with_dates (getFilterDates clk userFilterType customUserDateRange)
       (from_select ''users'' ''*, user_sessions(*)'')"

definition fetchTrafficSources_query :: "clock \<Rightarrow> filter_type \<Rightarrow> date_bounds \<Rightarrow> query" where
  "fetchTrafficSources_query clk trafficFilterType customTrafficDateRange =
     with_dates (getFilterDates clk trafficFilterType customTrafficDateRange)
       (chain (from_select ''user_analytics_events'' ''utm_source, utm_medium, utm_campaign'')
          (NotIsNull ''utm_source''))"

definition fetchPageAnalytics_query :: "clock \<Rightarrow> filter_type \<Rightarrow> date_bounds \<Rightarrow> query" where
  "fetchPageAnalytics_query clk pageFilterType customPageDateRange =
     with_dates (getFilterDates clk pageFilterType customPageDateRange)
       (chain (from_select ''user_analytics_events'' ''page_path, user_id'')
          (NotIsNull ''page_path''))"

text \<open>
  The event section hands the bounds to \<open>fetchEventCountsByType\<close> as a fresh object
  \<^verbatim>\<open>{ start: startDate, end: endDate }\<close>, whatever the bounds are, and publishes the
  result or the error message.
\<close>

definition fetchEventAnalytics_range :: "clock \<Rightarrow> filter_type \<Rightarrow> date_bounds \<Rightarrow> date_range option" where
  "fetchEventAnalytics_range clk eventFilterType customEventDateRange =
     (let d = getFilterDates clk eventFilterType customEventDateRange
      in Some \<lparr>range_start = bound_startDate d, range_end = bound_endDate d\<rparr>)"

record event_section_state =
  eventAnalytics :: "event_type_count list"
  section_loading :: bool
  section_error :: "string option"

definition fetchEventAnalytics ::
  "(query \<Rightarrow> analytics_event list response) \<Rightarrow> clock \<Rightarrow> filter_type \<Rightarrow> date_bounds
     \<Rightarrow> event_section_state \<Rightarrow> event_section_state"
where
  "fetchEventAnalytics remote clk eventFilterType customEventDateRange st =
     (let st1 = st\<lparr>section_loading := True, section_error := None\<rparr>
      in case fetchEventCountsByType remote
                (fetchEventAnalytics_range clk eventFilterType customEventDateRange) of
           Inr counts \<Rightarrow> st1\<lparr>eventAnalytics := counts, section_loading := False\<rparr>
         | Inl e \<Rightarrow> st1\<lparr>section_error := Some ''Failed to fetch event analytics'',
                          section_loading := False\<rparr>)"

text \<open>
  A store that serves the unrestricted event query and rejects a query with a date step
  whose bound is \<open>null\<close>.
\<close>

definition null_bound :: "step \<Rightarrow> bool" where
  "null_bound s = (s = Gte ''created_at'' JNull \<or> s = Lte ''created_at'' JNull)"

definition bad_timestamp :: pg_error where
  "bad_timestamp = \<lparr>code = ''22007'', message = ''invalid input syntax for type timestamp''\<rparr>"

definition strict_store :: "analytics_event list \<Rightarrow> query \<Rightarrow> analytics_event list response" where
  "strict_store rows q =
     (if list_ex null_bound (steps q) then \<lparr>data = None, error = Some bad_timestamp\<rparr>
      else \<lparr>data = Some rows, error = None\<rparr>)"


section \<open>Ratios rendered to one decimal\<close>

text \<open>
  A ratio field is \<^verbatim>\<open>guard > 0 ? (a / b).toFixed(1) : '0'\<close>. The quotient of two numbers is
  a double: for \<open>b = 0\<close> it is \<open>Infinity\<close>, \<open>-Infinity\<close> or \<open>NaN\<close>, which \<open>toFixed\<close> renders by
  name; for \<open>b \<noteq> 0\<close> it is finite and \<open>toFixed(1)\<close> renders it with one decimal. The
  rendering of finite quotients is a parameter \<open>fixed1\<close> of the embedding.
\<close>

definition ratio_toFixed1 :: "(int \<Rightarrow> int \<Rightarrow> string) \<Rightarrow> int \<Rightarrow> int \<Rightarrow> string" where
  "ratio_toFixed1 fixed1 a b =
     (if b = 0 then (if a = 0 then ''NaN'' else if 0 < a then ''Infinity'' else ''-Infinity'')
      else fixed1 a b)"

text \<open>A \<open>Set\<close> keeps its distinct elements in insertion order.\<close>

definition set_add :: "'a list \<Rightarrow> 'a \<Rightarrow> 'a list" where
  "set_add xs x = (if x \<in> set xs then xs else xs @ [x])"

text \<open>
  A key of a record is a string: \<open>undefined\<close> and \<open>null\<close> used as a key or interpolated
  into a template become their names.
\<close>

definition property_key :: "string option \<Rightarrow> string" where
  "property_key v = (case v of None \<Rightarrow> ''undefined'' | Some s \<Rightarrow> s)"

definition interpolate :: "string option \<Rightarrow> string" where
  "interpolate v = (case v of None \<Rightarrow> ''null'' | Some s \<Rightarrow> s)"

subsection \<open>\<open>fetchPagePerformance\<close>\<close>

text \<open>
  The query selects \<open>page_path, page_section, user_id, created_at, event_data\<close> of the rows
  with a page path. The grouping key is read as \<^verbatim>\<open>event.event_path\<close>: the rows have no such
  property (the table has no such column and the projection names none), so the read is
  \<open>undefined\<close> for every row. The only key of \<open>pageMap\<close> is therefore \<open>undefined\<close>, which is
  not the name of an inherited member.
\<close>

definition event_path :: "analytics_event \<Rightarrow> string option" where
  "event_path event = None"

record page_entry =
  pe_path :: "string option"
  pe_visits :: nat
  pe_uniqueUsers :: "string option list"
  pe_sections :: "string list"

record page_summary =
  ps_path :: "string option"
  ps_visits :: nat
  ps_uniqueUsers :: nat
  ps_sections :: "string list"
  ps_avgVisitsPerUser :: string

definition visit_page :: "(string \<times> page_entry) list \<Rightarrow> analytics_event \<Rightarrow> (string \<times> page_entry) list" where
  "visit_page pageMap event =
     (let path = event_path event;
          page = (case map_of pageMap (property_key path) of
                    None \<Rightarrow> \<lparr>pe_path = path, pe_visits = 0, pe_uniqueUsers = [], pe_sections = []\<rparr>
                  | Some p \<Rightarrow> p);
          page = page\<lparr>pe_visits := pe_visits page + 1,
                      pe_uniqueUsers := set_add (pe_uniqueUsers page) (user_id event)\<rparr>;
          page = (if truthy_string (page_section event)
                  then page\<lparr>pe_sections := set_add (pe_sections page) (the (page_section event))\<rparr>
                  else page)
      in AList.update (property_key path) page pageMap)"

definition page_summary_of :: "(int \<Rightarrow> int \<Rightarrow> string) \<Rightarrow> page_entry \<Rightarrow> page_summary" where
  "page_summary_of fixed1 page =
     \<lparr>ps_path = pe_path page,
      ps_visits = pe_visits page,
      ps_uniqueUsers = length (pe_uniqueUsers page),
      ps_sections = pe_sections page,
      ps_avgVisitsPerUser =
        (if length (pe_uniqueUsers page) > 0
         then ratio_toFixed1 fixed1 (int (pe_visits page)) (int (length (pe_uniqueUsers page)))
         else ''0'')\<rparr>"

text \<open>\<open>Array.prototype.sort\<close> is stable; \<open>(a, b) => b.visits - a.visits\<close> sorts descending.\<close>

definition page_performance :: "(int \<Rightarrow> int \<Rightarrow> string) \<Rightarrow> analytics_event list \<Rightarrow> page_summary list" where
  "page_performance fixed1 rows =
     sort_key (\<lambda>p. - int (ps_visits p))
       (map (page_summary_of fixed1) (Object_values (foldl visit_page [] rows)))"

definition fetchPagePerformance ::
  "(int \<Rightarrow> int \<Rightarrow> string) \<Rightarrow> (query \<Rightarrow> analytics_event list response) \<Rightarrow> thrown + page_summary list"
where
  "fetchPagePerformance fixed1 remote =
     (let resp = remote (chain (from_select ''user_analytics_events''
                                  ''page_path, page_section, user_id, created_at, event_data'')
                           (NotIsNull ''page_path''))
      in case error resp of
           Some e \<Rightarrow> Inl (handleSupabaseError e ''fetch page performance'')
         | None \<Rightarrow> Inr (page_performance fixed1 (or_empty (data resp))))"

subsection \<open>\<open>fetchCampaignAnalytics\<close>\<close>

text \<open>
  The active days of a campaign are the distinct UTC dates of its events,
  \<^verbatim>\<open>new Date(event.created_at).toISOString().split('T')[0]\<close>; a date is represented by the
  number of its day since the epoch. A key of \<open>campaignMap\<close> joins three parts with \<open>-\<close>,
  a character no name of an inherited member contains.
\<close>

record campaign_entry =
  ce_campaign :: "string option"
  ce_source :: "string option"
  ce_medium :: string
  ce_events :: nat
  ce_uniqueDays :: "int list"

record campaign_summary =
  cs_campaign :: "string option"
  cs_source :: "string option"
  cs_medium :: string
  cs_totalEvents :: nat
  cs_activeDays :: nat
  cs_avgEventsPerDay :: string

definition campaign_key :: "analytics_event \<Rightarrow> string" where
  "campaign_key event =
     interpolate (utm_campaign event) @ ''-'' @ interpolate (utm_source event) @ ''-''
       @ interpolate (utm_medium event)"

definition count_campaign :: "(string \<times> campaign_entry) list \<Rightarrow> analytics_event \<Rightarrow> (string \<times> campaign_entry) list" where
  "count_campaign campaignMap event =
     (let key = campaign_key event;
          date = created_at event div 86400000;
          c = (case map_of campaignMap key of
                 None \<Rightarrow> \<lparr>ce_campaign = utm_campaign event, ce_source = utm_source event,
                           ce_medium = (if truthy_string (utm_medium event)
                                        then the (utm_medium event) else ''N/A''),
                           ce_events = 0, ce_uniqueDays = []\<rparr>
               | Some c \<Rightarrow> c)
      in AList.update key
           (c\<lparr>ce_events := ce_events c + 1, ce_uniqueDays := set_add (ce_uniqueDays c) date\<rparr>)
           campaignMap)"

definition campaign_summary_of :: "(int \<Rightarrow> int \<Rightarrow> string) \<Rightarrow> campaign_entry \<Rightarrow> campaign_summary" where
  "campaign_summary_of fixed1 campaign =
     \<lparr>cs_campaign = ce_campaign campaign,
      cs_source = ce_source campaign,
      cs_medium = ce_medium campaign,
      cs_totalEvents = ce_events campaign,
      cs_activeDays = length (ce_uniqueDays campaign),
      cs_avgEventsPerDay =
        (if length (ce_uniqueDays campaign) > 0
         then ratio_toFixed1 fixed1 (int (ce_events campaign)) (int (length (ce_uniqueDays campaign)))
         else ''0'')\<rparr>"

definition campaign_analytics :: "(int \<Rightarrow> int \<Rightarrow> string) \<Rightarrow> analytics_event list \<Rightarrow> campaign_summary list" where
  "campaign_analytics fixed1 rows =
     sort_key (\<lambda>c. - int (cs_totalEvents c))
       (map (campaign_summary_of fixed1) (Object_values (foldl count_campaign [] rows)))"

definition fetchCampaignAnalytics ::
  "(int \<Rightarrow> int \<Rightarrow> string) \<Rightarrow> (query \<Rightarrow> analytics_event list response) \<Rightarrow> thrown + campaign_summary list"
where
  "fetchCampaignAnalytics fixed1 remote =
     (let resp = remote (chain (from_select ''user_analytics_events''
                                  ''utm_campaign, utm_source, utm_medium, event_type, created_at'')
                           (NotIsNull ''utm_campaign''))
      in case error resp of
           Some e \<Rightarrow> Inl (handleSupabaseError e ''fetch campaign analytics'')
         | None \<Rightarrow> Inr (campaign_analytics fixed1 (or_empty (data resp))))"

subsection \<open>\<open>fetchRealtimeAnalytics\<close>\<close>

fun show_nat :: "nat \<Rightarrow> string" where
  "show_nat n =
     (if n < 10 then [''0123456789'' ! n] else show_nat (n div 10) @ [''0123456789'' ! (n mod 10)])"

definition show_int :: "int \<Rightarrow> string" where
  "show_int i = (if i < 0 then CHR ''-'' # show_nat (nat (- i)) else show_nat (nat i))"

record realtime_analytics =
  recentEvents :: "analytics_event list"
  totalEvents :: nat
  uniqueActiveUsers :: nat
  eventTypes :: "string list"
  timeRange :: string
  eventsPerMinute :: string

definition fetchRealtimeAnalytics_query :: "clock \<Rightarrow> int \<Rightarrow> query" where
  "fetchRealtimeAnalytics_query clk minutesBack =
     chain (chain (from_select ''user_analytics_events'' ''*, users(first_name, last_name, user_type)'')
              (Gte ''created_at'' (JStr (minutes_ago_iso clk minutesBack))))
       (Order ''created_at'' False)"

definition fetchRealtimeAnalytics ::
  "(int \<Rightarrow> int \<Rightarrow> string) \<Rightarrow> clock \<Rightarrow> (query \<Rightarrow> analytics_event list response) \<Rightarrow> int
     \<Rightarrow> thrown + realtime_analytics"
where
  "fetchRealtimeAnalytics fixed1 clk remote minutesBack =
     (let resp = remote (fetchRealtimeAnalytics_query clk minutesBack)
      in case error resp of
           Some e \<Rightarrow> Inl (handleSupabaseError e ''fetch realtime analytics'')
         | None \<Rightarrow>
             (let events = or_empty (data resp)
              in Inr \<lparr>recentEvents = events,
                      totalEvents = length events,
                      uniqueActiveUsers = length (first_seen (map user_id events)),
                      eventTypes = first_seen (map event_type events),
                      timeRange = show_int minutesBack @ '' minutes'',
                      eventsPerMinute =
                        (if length events > 0
                         then ratio_toFixed1 fixed1 (int (length events)) minutesBack
                         else ''0'')\<rparr>))"


section \<open>Session detail (\<open>fetchUserSessionEvents\<close>)\<close>

text \<open>
  The function issues three queries: the session with its owning user
  (\<^verbatim>\<open>from('user_sessions').select('id, started_at, users(...)').eq('id', sessionId).single()\<close>),
  the events of the session in ascending order of creation
  (\<^verbatim>\<open>from('user_analytics_events').select('*').eq('session_id', sessionId).order('created_at')\<close>)
  and the active subscription of the user
  (\<^verbatim>\<open>from('subscriptions').select(...).eq('user_id', data.users.id).eq('status', 'active').single()\<close>).
  A remote answers each of them for the identifier in the query. The column
  \<open>user_sessions.user_id\<close> is nullable, and the joined \<open>users\<close> of a session without a user
  is \<open>null\<close>; the function reads \<^verbatim>\<open>data.users.id\<close> without a test, after the event query
  and before the subscription query.
\<close>

record user_row =
  user_row_id :: string
  first_name :: string
  last_name :: string
  email :: string
  phone :: "string option"
  user_type :: string
  has_active_subscription :: bool
  user_created_at :: int

record session_view =
  sv_id :: string
  sv_started_at :: int
  sv_users :: "user_row option"

record subscription_info =
  plan_id :: string
  status :: string
  current_period_end :: int
  plan_type :: string
  is_trial :: bool

record subscription_view = subscription_info +
  subscription_plans :: "(string \<times> int \<times> string) option"

record session_remote =
  session_by_id :: "string \<Rightarrow> session_view response"
  events_by_session :: "string \<Rightarrow> analytics_event list response"
  active_subscription_by_user :: "string \<Rightarrow> subscription_view response"

text \<open>
  The session projection has the columns \<open>id\<close>, \<open>started_at\<close> and \<open>users\<close>; the duration is
  computed from \<^verbatim>\<open>data.ended_at\<close>, which the projection does not carry, so the read is
  \<open>undefined\<close>.
\<close>

definition ended_at :: "session_view \<Rightarrow> int option" where
  "ended_at d = None"

text \<open>
  \<^verbatim>\<open>Math.floor(durationMs / 60000)\<close> minutes and
  \<^verbatim>\<open>Math.floor((durationMs % 60000) / 1000)\<close> seconds, where \<open>%\<close> takes the sign of the
  dividend.
\<close>

definition js_rem :: "int \<Rightarrow> int \<Rightarrow> int" where
  "js_rem a b = (if 0 \<le> a then a mod \<bar>b\<bar> else - ((- a) mod \<bar>b\<bar>))"

definition format_duration :: "int \<Rightarrow> string" where
  "format_duration durationMs =
     show_int (durationMs div 60000) @ ''m '' @ show_int (js_rem durationMs 60000 div 1000) @ ''s''"

definition session_duration_of :: "session_view \<Rightarrow> string option" where
  "session_duration_of d =
     (case ended_at d of
        None \<Rightarrow> None
      | Some end_ms \<Rightarrow> Some (format_duration (end_ms - sv_started_at d)))"

record page_visit_entry =
  pv_count :: nat
  pv_lastVisited :: int

record page_visit =
  visit_page_path :: string
  visit_count :: nat
  last_visited :: int

record session_stats =
  total_events :: nat
  session_duration :: "string option"
  unique_pages :: nat

record session_with_events =
  sessionId :: string
  user :: user_row
  events :: "analytics_event list"
  createdAt :: int
  subscription :: "subscription_info option"
  pageVisits :: "page_visit list"
  sessionStats :: session_stats

text \<open>
  \<^verbatim>\<open>if (!pageVisitMap[p]) pageVisitMap[p] = { count: 0, lastVisited: event.created_at }\<close>,
  then \<^verbatim>\<open>pageVisitMap[p].count++\<close> and the update of \<open>lastVisited\<close>. Under the name of an
  inherited member the read is truthy, no entry is created, and the two updates go to
  the inherited object: \<open>pageVisitMap\<close> stays as it is.
\<close>

definition count_page_visit ::
  "(string \<times> page_visit_entry) list \<Rightarrow> analytics_event \<Rightarrow> (string \<times> page_visit_entry) list"
where
  "count_page_visit pageVisitMap event =
     (if truthy_string (page_path event)
      then (let key = the (page_path event)
            in if map_of pageVisitMap key = None \<and> inherited key then pageVisitMap
               else (let v = (case map_of pageVisitMap key of
                                None \<Rightarrow> \<lparr>pv_count = 0, pv_lastVisited = created_at event\<rparr>
                              | Some v \<Rightarrow> v);
                         v = v\<lparr>pv_count := pv_count v + 1\<rparr>;
                         v = (if pv_lastVisited v < created_at event
                              then v\<lparr>pv_lastVisited := created_at event\<rparr> else v)
                     in AList.update key v pageVisitMap))
      else pageVisitMap)"

definition page_visits_of :: "(string \<times> page_visit_entry) list \<Rightarrow> page_visit list" where
  "page_visits_of pageVisitMap =
     map (\<lambda>(path, v). \<lparr>visit_page_path = path, visit_count = pv_count v,
                         last_visited = pv_lastVisited v\<rparr>)
       (Object_entries pageVisitMap)"

definition subscription_of :: "subscription_view option \<Rightarrow> subscription_info option" where
  "subscription_of subscriptionData =
     (case subscriptionData of
        None \<Rightarrow> None
      | Some s \<Rightarrow> Some \<lparr>plan_id = plan_id s, status = status s,
                         current_period_end = current_period_end s,
                         plan_type = plan_type s, is_trial = is_trial s\<rparr>)"

definition assemble ::
  "session_view \<Rightarrow> user_row \<Rightarrow> analytics_event list \<Rightarrow> subscription_view option
     \<Rightarrow> session_with_events"
where
  "assemble d u evs subscriptionData =
     (let pageVisitMap = foldl count_page_visit [] evs
      in \<lparr>sessionId = sv_id d,
          user = u,
          events = evs,
          createdAt = sv_started_at d,
          subscription = subscription_of subscriptionData,
          pageVisits = sort_key (\<lambda>v. - int (visit_count v)) (page_visits_of pageVisitMap),
          sessionStats = \<lparr>total_events = length evs,
                          session_duration = session_duration_of d,
                          unique_pages = length (Object_keys pageVisitMap)\<rparr>\<rparr>)"

text \<open>
  The result pairs what the function writes with \<open>console.error\<close> (the labels, in order)
  with what it returns or throws. A failure of the session query throws, and so does the
  read of \<^verbatim>\<open>data.users.id\<close> when the joined user is \<open>null\<close>; a failure of the event query
  is logged, a failure of the subscription query is logged unless its code is
  \<open>PGRST116\<close>, and the assembly goes on with \<^verbatim>\<open>eventsData || []\<close> and the subscription
  data received.
\<close>

definition events_log :: "analytics_event list response \<Rightarrow> string list" where
  "events_log resp = (case error resp of None \<Rightarrow> [] | Some e \<Rightarrow> [''Error fetching events:''])"

definition subscription_log :: "subscription_view response \<Rightarrow> string list" where
  "subscription_log resp =
     (case error resp of
        None \<Rightarrow> []
      | Some e \<Rightarrow> if code e \<noteq> ''PGRST116'' then [''Error fetching subscription:''] else [])"

definition fetchUserSessionEvents ::
  "session_remote \<Rightarrow> string \<Rightarrow> string list \<times> (thrown + session_with_events option)"
where
  "fetchUserSessionEvents remote sid =
     (let resp = session_by_id remote sid
      in case error resp of
           Some e \<Rightarrow>
             ([''Error in fetch user session events for session '' @ sid @ '':'',
               ''Error fetching user session events:''],
              Inl (handleSupabaseError e (''fetch user session events for session '' @ sid)))
         | None \<Rightarrow>
             (case data resp of
                None \<Rightarrow> ([], Inr None)
              | Some d \<Rightarrow>
                  (let eventsResp = events_by_session remote sid
                   in case sv_users d of
                        None \<Rightarrow>
                          (events_log eventsResp @ [''Error fetching user session events:''],
                           Inl TypeError)
                      | Some u \<Rightarrow>
                          (let subResp = active_subscription_by_user remote (user_row_id u)
                           in (events_log eventsResp @ subscription_log subResp,
                               Inr (Some (assemble d u (or_empty (data eventsResp))
                                            (data subResp))))))))"

text \<open>
  The drawer of the dashboard shows the detail, the message for a session that was not
  found, or the message for a failed fetch.
\<close>

record drawer_state =
  isDrawerOpen :: bool
  selectedSession :: "session_with_events option"
  drawerLoading :: bool
  drawerError :: "string option"

definition openSessionDrawer :: "session_remote \<Rightarrow> string \<Rightarrow> drawer_state" where
  "openSessionDrawer remote sid =
     (case snd (fetchUserSessionEvents remote sid) of
        Inr (Some sessionData) \<Rightarrow>
          \<lparr>isDrawerOpen = True, selectedSession = Some sessionData, drawerLoading = False,
           drawerError = None\<rparr>
      | Inr None \<Rightarrow>
          \<lparr>isDrawerOpen = True, selectedSession = None, drawerLoading = False,
           drawerError = Some ''Session data not found.''\<rparr>
      | Inl e \<Rightarrow>
          \<lparr>isDrawerOpen = True, selectedSession = None, drawerLoading = False,
           drawerError = Some ''Failed to fetch session details''\<rparr>)"

subsection \<open>A store behind the session queries\<close>

text \<open>
  The store holds the sessions (each with its owning user, if it has one, and its
  optional end), the events and the subscriptions. The modifier \<open>single()\<close> of the client answers with the row
  when the query matches exactly one row and with the error \<open>PGRST116\<close> otherwise, for no
  row as for several; the source itself tests for this code after the subscription query.
\<close>

record stored_session =
  ss_id :: string
  ss_user :: "user_row option"
  ss_started_at :: int
  ss_ended_at :: "int option"

record stored_subscription =
  sub_user_id :: string
  sub_view :: subscription_view

record store =
  sessions :: "stored_session list"
  event_rows :: "analytics_event list"
  subscriptions :: "stored_subscription list"

definition not_single_row :: pg_error where
  "not_single_row =
     \<lparr>code = ''PGRST116'', message = ''JSON object requested, multiple (or no) rows returned''\<rparr>"

definition single :: "'a list \<Rightarrow> 'a response" where
  "single rows =
     (case rows of
        [x] \<Rightarrow> \<lparr>data = Some x, error = None\<rparr>
      | _ \<Rightarrow> \<lparr>data = None, error = Some not_single_row\<rparr>)"

definition select_session :: "stored_session \<Rightarrow> session_view" where
  "select_session s = \<lparr>sv_id = ss_id s, sv_started_at = ss_started_at s, sv_users = ss_user s\<rparr>"

definition store_remote :: "store \<Rightarrow> session_remote" where
  "store_remote st =
     \<lparr>session_by_id = (\<lambda>sid. single (map select_session (filter (\<lambda>s. ss_id s = sid) (sessions st)))),
      events_by_session =
        (\<lambda>sid. \<lparr>data = Some (sort_key created_at
                               (filter (\<lambda>e. session_id e = Some sid) (event_rows st))),
                error = None\<rparr>),
      active_subscription_by_user =
        (\<lambda>uid. single (map sub_view
                  (filter (\<lambda>s. sub_user_id s = uid \<and> status (sub_view s) = ''active'')
                     (subscriptions st))))\<rparr>"

text \<open>Examples: a user, an ended session of 2 minutes and 5 seconds, and its store.\<close>

definition alice :: user_row where
  "alice = \<lparr>user_row_id = ''u1'', first_name = ''Alice'', last_name = ''A'', email = ''a@x.io'',
            phone = None, user_type = ''standard'', has_active_subscription = False,
            user_created_at = 0\<rparr>"

definition ended_session :: stored_session where
  "ended_session =
     \<lparr>ss_id = ''s1'', ss_user = Some alice, ss_started_at = 1000, ss_ended_at = Some 126000\<rparr>"

definition ended_store :: store where
  "ended_store =
     \<lparr>sessions = [ended_session],
      event_rows = [(ev ''view'' ''u1'' ''/a'' 2000)\<lparr>session_id := Some ''s1''\<rparr>],
      subscriptions = []\<rparr>"

definition degraded_remote :: session_remote where
  "degraded_remote =
     (store_remote ended_store)
       \<lparr>events_by_session := (\<lambda>sid. \<lparr>data = None, error = Some outage\<rparr>),
        active_subscription_by_user := (\<lambda>uid. \<lparr>data = None, error = Some outage\<rparr>)\<rparr>"


text \<open>A session without a user, in a store whose event query is unavailable.\<close>

definition orphan_session :: stored_session where
  "orphan_session = \<lparr>ss_id = ''s2'', ss_user = None, ss_started_at = 5000, ss_ended_at = None\<rparr>"

definition orphan_remote :: session_remote where
  "orphan_remote =
     (store_remote \<lparr>sessions = [orphan_session], event_rows = [], subscriptions = []\<rparr>)
       \<lparr>events_by_session := (\<lambda>sid. \<lparr>data = None, error = Some outage\<rparr>)\<rparr>"

text \<open>
  The per-page summary of a list of events, in the words of the specification: the
  distinct page paths in the order of their first event, and for each of them the number
  of its events and the latest of their timestamps; the summaries are listed by
  descending count, pages of equal count in enumeration order.
\<close>

definition paths_visited :: "analytics_event list \<Rightarrow> string list" where
  "paths_visited evs =
     first_seen (map (\<lambda>e. the (page_path e)) (filter (\<lambda>e. truthy_string (page_path e)) evs))"

definition visits_to :: "analytics_event list \<Rightarrow> string \<Rightarrow> analytics_event list" where
  "visits_to evs p = filter (\<lambda>e. page_path e = Some p) evs"

definition visit_summary :: "analytics_event list \<Rightarrow> string \<Rightarrow> page_visit" where
  "visit_summary evs p =
     \<lparr>visit_page_path = p,
      visit_count = length (visits_to evs p),
      last_visited = Max (set (map created_at (visits_to evs p)))\<rparr>"

definition page_visit_summary :: "analytics_event list \<Rightarrow> page_visit list" where
  "page_visit_summary evs =
     sort_key (\<lambda>v. - int (visit_count v))
       (map (visit_summary evs) (enumeration_order (paths_visited evs)))"

text \<open>The entry that \<open>pageVisitMap\<close> holds for a page after a list of events.\<close>

definition page_entry_of :: "analytics_event list \<Rightarrow> string \<Rightarrow> page_visit_entry" where
  "page_entry_of evs p =
     \<lparr>pv_count = length (visits_to evs p),
      pv_lastVisited = Max (set (map created_at (visits_to evs p)))\<rparr>"

text \<open>A failed query resolves to an error and no data.\<close>

definition failed :: "'a response \<Rightarrow> bool" where
  "failed resp = (error resp \<noteq> None \<and> data resp = None)"


chapter \<open>Properties\<close>

section \<open>Paginated fetch\<close>

lemma fetchSize_pos: "0 < fetchSize"
  by (simp add: fetchSize_def)

lemma push_page_Some: "push_page acc (Some rows) = acc @ rows"
  by (simp add: push_page_def)

lemma advance_Some: "advance off0 (Some rows) = off0 + length rows"
  by (simp add: advance_def)

lemma table_remote_page:
  "table_remote tbl k (i * fetchSize) (i * fetchSize + fetchSize - 1) = snd (table_exchange tbl i)"
  using fetchSize_pos by (simp add: table_remote_def table_exchange_def)

lemma length_table_page:
  "length (take fetchSize (drop (i * fetchSize) tbl)) =
     (if i < length tbl div fetchSize then fetchSize
      else if i = length tbl div fetchSize then length tbl mod fetchSize else 0)"
proof -
  let ?F = fetchSize and ?N = "length tbl"
  have F: "0 < ?F" by (rule fetchSize_pos)
  have len: "length (take ?F (drop (i * ?F) tbl)) = min ?F (?N - i * ?F)"
    by simp
  show ?thesis
  proof (cases "i < ?N div ?F")
    case True
    then have "Suc i \<le> ?N div ?F" by simp
    then have "Suc i * ?F \<le> ?N div ?F * ?F" by (rule mult_le_mono1)
    also have "\<dots> \<le> ?N" by simp
    finally have "i * ?F + ?F \<le> ?N" by simp
    with True len show ?thesis by simp
  next
    case False
    show ?thesis
    proof (cases "i = ?N div ?F")
      case True
      have "?N - ?N div ?F * ?F = ?N mod ?F"
        by (simp add: minus_div_mult_eq_mod)
      moreover have "?N mod ?F < ?F" using F by simp
      ultimately show ?thesis using True len by simp
    next
      case ne: False
      with False have "?N div ?F < i" by simp
      then have "?N < i * ?F" using F
        by (simp add: div_less_iff_less_mult)
      with False ne len show ?thesis by simp
    qed
  qed
qed

lemma fetchAllUsers_loop_table:
  "k \<le> length tbl div fetchSize \<Longrightarrow>
   fetchAllUsers_loop (table_remote tbl) (take (k * fetchSize) tbl) (k * fetchSize)
       (map (table_exchange tbl) [0..<k])
     = Some (Inr tbl, map (table_exchange tbl) [0..<length tbl div fetchSize + 1])"
proof (induction "length tbl div fetchSize - k" arbitrary: k)
  case 0
  then have k: "k = length tbl div fetchSize" by simp
  let ?page = "take fetchSize (drop (k * fetchSize) tbl)"
  have len: "length ?page = length tbl mod fetchSize"
    using length_table_page [of k tbl] k by simp
  have "length tbl mod fetchSize < fetchSize" using fetchSize_pos by simp
  with len have nm: "\<not> has_more (Some ?page)" by (simp add: has_more_def)
  have "length tbl < k * fetchSize + fetchSize"
    using k fetchSize_pos by (metis add.commute dividend_less_div_times mult.commute)
  then have all: "take (k * fetchSize) tbl @ ?page = tbl"
    by (simp add: take_add [symmetric])
  show ?case
    apply (subst fetchAllUsers_loop.simps)
    apply (simp only: length_map length_upt minus_nat.diff_0 table_remote_page Let_def)
    using nm all k
    apply (simp add: table_exchange_def push_page_Some)
    done
next
  case (Suc n)
  then have k: "k < length tbl div fetchSize" by simp
  let ?page = "take fetchSize (drop (k * fetchSize) tbl)"
  have len: "length ?page = fetchSize"
    using length_table_page [of k tbl] k by simp
  then have hm: "has_more (Some ?page)" by (simp add: has_more_def)
  have acc: "take (k * fetchSize) tbl @ ?page = take (Suc k * fetchSize) tbl"
    by (simp add: take_add [symmetric] add.commute)
  have IH: "fetchAllUsers_loop (table_remote tbl) (take (Suc k * fetchSize) tbl) (Suc k * fetchSize)
       (map (table_exchange tbl) [0..<Suc k])
     = Some (Inr tbl, map (table_exchange tbl) [0..<length tbl div fetchSize + 1])"
    using Suc.hyps(1) [of "Suc k"] Suc.hyps(2) k by simp
  have adv: "advance (k * fetchSize) (Some ?page) = Suc k * fetchSize"
    using len by (simp add: advance_Some)
  show ?case
    apply (subst fetchAllUsers_loop.simps)
    apply (simp only: length_map length_upt minus_nat.diff_0 table_remote_page Let_def)
    using hm acc adv IH
    apply (simp add: table_exchange_def push_page_Some)
    done
qed

lemma advance_has_more: "has_more d \<Longrightarrow> advance off0 d = off0 + fetchSize"
  by (cases d) (auto simp: has_more_def advance_def)

lemma fetchAllUsers_loop_error_at:
  assumes "error (answer_at remote m) = Some e"
    and "\<forall>i<m. full_page (answer_at remote i)"
  shows "k \<le> m \<Longrightarrow> length tr = k \<Longrightarrow>
     fetchAllUsers_loop remote acc (k * fetchSize) tr
       = Some (Inl e, tr @ map (\<lambda>i. (request_at i, answer_at remote i)) [k..<Suc m])"
proof (induction "m - k" arbitrary: k tr acc)
  case 0
  then have k: "k = m" by simp
  show ?case
    apply (subst fetchAllUsers_loop.simps)
    using assms(1) 0(3) k
    apply (simp add: Let_def answer_at_def request_at_def)
    done
next
  case (Suc n)
  then have k: "k < m" by simp
  with assms(2) have fp: "full_page (answer_at remote k)" by simp
  let ?resp = "remote k (k * fetchSize) (k * fetchSize + fetchSize - 1)"
  have resp: "answer_at remote k = ?resp" by (simp add: answer_at_def request_at_def)
  from fp resp have noerr: "error ?resp = None" and hm: "has_more (data ?resp)"
    by (simp_all add: full_page_def)
  have adv: "advance (k * fetchSize) (data ?resp) = Suc k * fetchSize"
    using hm by (simp add: advance_has_more)
  have IH: "fetchAllUsers_loop remote (push_page acc (data ?resp)) (Suc k * fetchSize)
              (tr @ [((k * fetchSize, k * fetchSize + fetchSize - 1), ?resp)])
          = Some (Inl e, (tr @ [((k * fetchSize, k * fetchSize + fetchSize - 1), ?resp)])
                 @ map (\<lambda>i. (request_at i, answer_at remote i)) [Suc k..<Suc m])"
    using Suc.hyps(1) [of "Suc k"] Suc.hyps(2) k Suc.prems(2) by simp
  have upt: "[k..<Suc m] = k # [Suc k..<Suc m]"
    using k by (simp add: upt_conv_Cons)
  have ex: "(request_at k, answer_at remote k)
      = ((k * fetchSize, k * fetchSize + fetchSize - 1), ?resp)"
    by (simp add: request_at_def answer_at_def)
  have tr_eq: "(tr @ [((k * fetchSize, k * fetchSize + fetchSize - 1), ?resp)])
                 @ map (\<lambda>i. (request_at i, answer_at remote i)) [Suc k..<Suc m]
             = tr @ map (\<lambda>i. (request_at i, answer_at remote i)) [k..<Suc m]"
    by (simp only: upt list.map ex append_assoc append.simps)
  have step: "fetchAllUsers_loop remote acc (k * fetchSize) tr
     = fetchAllUsers_loop remote (push_page acc (data ?resp)) (Suc k * fetchSize)
              (tr @ [((k * fetchSize, k * fetchSize + fetchSize - 1), ?resp)])"
    apply (subst fetchAllUsers_loop.simps)
    apply (simp only: Let_def Suc.prems(2) noerr hm adv option.case if_True)
    done
  show ?case
    by (simp only: step IH tr_eq)
qed

lemma fetchAllUsers_loop_trace_clean:
  assumes "fetchAllUsers_loop remote acc off0 tr = Some y"
  shows "list_all (\<lambda>x. error (snd x) = None) tr \<longrightarrow>
         (case fst y of Inl e \<Rightarrow> True | Inr rows \<Rightarrow> list_all (\<lambda>x. error (snd x) = None) (snd y))"
proof (rule fetchAllUsers_loop.raw_induct
    [where P = "\<lambda>r a off t y. list_all (\<lambda>x. error (snd x) = None) t \<longrightarrow>
         (case fst y of Inl e \<Rightarrow> True | Inr rows \<Rightarrow> list_all (\<lambda>x. error (snd x) = None) (snd y))",
     OF _ assms])
  fix loop :: "'a range_remote \<Rightarrow> 'a list \<Rightarrow> nat \<Rightarrow> 'a exchange list
                 \<Rightarrow> ((pg_error + 'a list) \<times> 'a exchange list) option"
  fix r a off t z
  assume IH: "\<And>r a off t z. loop r a off t = Some z \<Longrightarrow>
     list_all (\<lambda>x. error (snd x) = None) t \<longrightarrow>
       (case fst z of Inl e \<Rightarrow> True | Inr rows \<Rightarrow> list_all (\<lambda>x. error (snd x) = None) (snd z))"
  assume body: "(let resp = r (length t) off (off + fetchSize - 1);
          trace' = t @ [((off, off + fetchSize - 1), resp)]
      in case error resp of
           Some e \<Rightarrow> Some (Inl e, trace')
         | None \<Rightarrow>
             if has_more (data resp)
             then loop r (push_page a (data resp)) (advance off (data resp)) trace'
             else Some (Inr (push_page a (data resp)), trace')) = Some z"
  show "list_all (\<lambda>x. error (snd x) = None) t \<longrightarrow>
       (case fst z of Inl e \<Rightarrow> True | Inr rows \<Rightarrow> list_all (\<lambda>x. error (snd x) = None) (snd z))"
  proof
    assume clean: "list_all (\<lambda>x. error (snd x) = None) t"
    let ?resp = "r (length t) off (off + fetchSize - 1)"
    let ?t' = "t @ [((off, off + fetchSize - 1), ?resp)]"
    show "case fst z of Inl e \<Rightarrow> True | Inr rows \<Rightarrow> list_all (\<lambda>x. error (snd x) = None) (snd z)"
    proof (cases "error ?resp")
      case (Some e)
      with body have "z = (Inl e, ?t')" by (simp add: Let_def)
      then show ?thesis by simp
    next
      case None
      with clean have clean': "list_all (\<lambda>x. error (snd x) = None) ?t'" by simp
      show ?thesis
      proof (cases "has_more (data ?resp)")
        case True
        with None body have "loop r (push_page a (data ?resp)) (advance off (data ?resp)) ?t' = Some z"
          by (simp add: Let_def)
        from IH [OF this] clean' show ?thesis by simp
      next
        case False
        with None body have "z = (Inr (push_page a (data ?resp)), ?t')" by (simp add: Let_def)
        with clean' show ?thesis by simp
      qed
    qed
  qed
qed

lemma fetchAllUsers_trace_error:
  assumes "fetchAllUsers remote st = Some out"
    and "\<not> list_all (\<lambda>x. error (snd x) = None) (trace out)"
  shows "out = failed_outcome st (trace out)"
proof -
  obtain res tr where loop: "fetchAllUsers_loop remote [] 0 [] = Some (res, tr)"
    using assms(1) by (cases "fetchAllUsers_loop remote [] 0 []") (auto simp: fetchAllUsers_def)
  have clean: "case res of Inl e \<Rightarrow> True | Inr rows \<Rightarrow> list_all (\<lambda>x. error (snd x) = None) tr"
    using fetchAllUsers_loop_trace_clean [OF loop] by (cases res) simp_all
  show ?thesis
  proof (cases res)
    case (Inl e)
    with loop assms(1) show ?thesis
      by (auto simp: fetchAllUsers_def failed_outcome_def)
  next
    case (Inr rows)
    with loop assms(1) have "trace out = tr"
      by (auto simp: fetchAllUsers_def)
    with clean Inr assms(2) show ?thesis by simp
  qed
qed

text \<open>
  Claim C9. A remote error on any page request aborts the whole fetch and discards the rows
  accumulated so far: whenever a fetch that returns has an error answer in its trace, the
  returned list is empty, the error message is set, the loading flag is lowered and the
  exposed user list is the one from before the fetch. Moreover such a fetch does return:
  if the first \<open>m\<close> requests are answered with full pages and the next one with an error,
  the fetch ends after \<open>m + 1\<close> requests with exactly this outcome.
\<close>

theorem fetchAllUsers_error_discards:
  "(fetchAllUsers remote st = Some out \<and> (\<exists>x \<in> set (trace out). error (snd x) \<noteq> None)
      \<longrightarrow> returned out = [] \<and> error_state (state out) = Some ''Failed to fetch users''
          \<and> \<not> loading (state out) \<and> users (state out) = users st)
   \<and> ((\<forall>i<m. full_page (answer_at remote i)) \<and> error (answer_at remote m) = Some e
      \<longrightarrow> fetchAllUsers remote st
            = Some (failed_outcome st (map (\<lambda>i. (request_at i, answer_at remote i)) [0..<Suc m])))"
proof (intro conjI impI)
  assume h: "fetchAllUsers remote st = Some out \<and> (\<exists>x \<in> set (trace out). error (snd x) \<noteq> None)"
  then have "\<not> list_all (\<lambda>x. error (snd x) = None) (trace out)"
    by (auto simp: list_all_iff)
  with h have out: "out = failed_outcome st (trace out)"
    using fetchAllUsers_trace_error by blast
  have "returned (failed_outcome st (trace out)) = []"
       "error_state (state (failed_outcome st (trace out))) = Some ''Failed to fetch users''"
       "\<not> loading (state (failed_outcome st (trace out)))"
       "users (state (failed_outcome st (trace out))) = users st"
    by (simp_all add: failed_outcome_def)
  with out show "returned out = []" "error_state (state out) = Some ''Failed to fetch users''"
       "\<not> loading (state out)" "users (state out) = users st"
    by metis+
next
  assume h: "(\<forall>i<m. full_page (answer_at remote i)) \<and> error (answer_at remote m) = Some e"
  have "fetchAllUsers_loop remote [] (0 * fetchSize) []
          = Some (Inl e, [] @ map (\<lambda>i. (request_at i, answer_at remote i)) [0..<Suc m])"
    using h by (intro fetchAllUsers_loop_error_at) simp_all
  then show "fetchAllUsers remote st
            = Some (failed_outcome st (map (\<lambda>i. (request_at i, answer_at remote i)) [0..<Suc m]))"
    by (simp add: fetchAllUsers_def failed_outcome_def del: upt_Suc)
qed

text \<open>
  Claim C1. For every table of \<open>N\<close> matching rows (\<open>N = 0\<close>, \<open>N = fetchSize\<close> and
  \<open>N = fetchSize + 1\<close> included) the fetch returns, publishes and returns exactly the
  \<open>N\<close> rows in order, and issues \<open>N div fetchSize + 1\<close> requests, which is at most
  \<open>\<lceil>N / fetchSize\<rceil> + 1\<close>; every page but the last holds exactly \<open>fetchSize\<close> rows and the
  last one holds \<open>N mod fetchSize\<close>, strictly fewer, which is where the loop stops.
\<close>

theorem fetchAllUsers_returns_all_rows:
  "\<exists>tr. fetchAllUsers (table_remote tbl) st
          = Some \<lparr>returned = tbl,
                  state = st\<lparr>users := tbl, loading := False, error_state := None\<rparr>,
                  trace = tr\<rparr>
     \<and> length tr = length tbl div fetchSize + 1
     \<and> length tr \<le> (length tbl + fetchSize - 1) div fetchSize + 1
     \<and> map fst tr = map request_at [0..<length tbl div fetchSize + 1]
     \<and> map (page_rows \<circ> snd) tr
         = replicate (length tbl div fetchSize) fetchSize @ [length tbl mod fetchSize]
     \<and> length tbl mod fetchSize < fetchSize \<and> fetchSize = 1000"
proof -
  let ?n = "length tbl div fetchSize"
  let ?tr = "map (table_exchange tbl) [0..<?n + 1]"
  have loop: "fetchAllUsers_loop (table_remote tbl) [] 0 [] = Some (Inr tbl, ?tr)"
    using fetchAllUsers_loop_table [of 0 tbl] by simp
  have res: "fetchAllUsers (table_remote tbl) st
          = Some \<lparr>returned = tbl,
                  state = st\<lparr>users := tbl, loading := False, error_state := None\<rparr>,
                  trace = ?tr\<rparr>"
    by (simp add: fetchAllUsers_def loop)
  have len: "length ?tr = ?n + 1" by simp
  have "length tbl \<le> length tbl + fetchSize - 1" using fetchSize_pos by simp
  then have "?n \<le> (length tbl + fetchSize - 1) div fetchSize" by (rule div_le_mono)
  then have bound: "length ?tr \<le> (length tbl + fetchSize - 1) div fetchSize + 1" by simp
  have reqs: "map fst ?tr = map request_at [0..<?n + 1]"
    by (simp add: table_exchange_def request_at_def)
  have rows: "page_rows (snd (table_exchange tbl i))
        = (if i < ?n then fetchSize else if i = ?n then length tbl mod fetchSize else 0)" for i
    using length_table_page [of i tbl] by (simp add: page_rows_def table_exchange_def)
  have "map (page_rows \<circ> snd) (map (table_exchange tbl) [0..<?n]) = replicate ?n fetchSize"
    by (rule nth_equalityI) (simp_all add: rows)
  then have sizes: "map (page_rows \<circ> snd) ?tr = replicate ?n fetchSize @ [length tbl mod fetchSize]"
    by (simp add: rows)
  have "length tbl mod fetchSize < fetchSize" using fetchSize_pos by simp
  with res len bound reqs sizes show ?thesis
    by (intro exI [of _ ?tr] conjI) (simp_all add: fetchSize_def)
qed

text \<open>The outcome of Claim C9 on a remote that fails on the second request.\<close>

theorem fetchAllUsers_error_discards_witness:
  "full_page (answer_at flaky_remote 0)
   \<and> error (answer_at flaky_remote 1) = Some outage
   \<and> fetchAllUsers flaky_remote stale_state
       = Some (failed_outcome stale_state
            [((0, 999), \<lparr>data = Some (replicate 1000 7), error = None\<rparr>),
             ((1000, 1999), \<lparr>data = None, error = Some outage\<rparr>)])
   \<and> returned (failed_outcome stale_state
            [((0, 999), \<lparr>data = Some (replicate 1000 7), error = None\<rparr>),
             ((1000, 1999), \<lparr>data = None, error = Some outage\<rparr>)]) = []
   \<and> users (state (failed_outcome stale_state
            [((0, 999), \<lparr>data = Some (replicate 1000 7), error = None\<rparr>),
             ((1000, 1999), \<lparr>data = None, error = Some outage\<rparr>)])) = [1, 2]"
proof -
  let ?tr = "[((0, 999), \<lparr>data = Some (replicate 1000 (7::nat)), error = None\<rparr>),
             ((1000, 1999), \<lparr>data = None, error = Some outage\<rparr>)]"
  have full: "\<forall>i<1. full_page (answer_at flaky_remote i)"
    by (simp add: full_page_def answer_at_def flaky_remote_def has_more_def fetchSize_def)
  have err: "error (answer_at flaky_remote 1) = Some outage"
    by (simp add: answer_at_def flaky_remote_def)
  have tr: "map (\<lambda>i. (request_at i, answer_at flaky_remote i)) [0..<Suc 1] = ?tr"
    by (simp add: request_at_def answer_at_def flaky_remote_def fetchSize_def)
  note inst = fetchAllUsers_error_discards
    [of flaky_remote stale_state "failed_outcome stale_state ?tr" 1 outage]
  from inst full err have run: "fetchAllUsers flaky_remote stale_state
       = Some (failed_outcome stale_state ?tr)"
    by (simp only: tr)
  have "\<exists>x \<in> set (trace (failed_outcome stale_state ?tr)). error (snd x) \<noteq> None"
    by (simp add: failed_outcome_def)
  with inst run have "returned (failed_outcome stale_state ?tr) = []
      \<and> users (state (failed_outcome stale_state ?tr)) = users stale_state"
    by blast
  moreover have "full_page (answer_at flaky_remote 0)"
    using full by simp
  ultimately show ?thesis
    using err run by (simp add: stale_state_def)
qed

text \<open>
  Claim C1 at tables of 0, 1000 and 1001 rows: one request with an empty page; two requests,
  the second page empty; two requests with pages of 1000 rows and 1 row.
\<close>

theorem fetchAllUsers_returns_all_rows_witness:
  "(\<exists>tr. fetchAllUsers (table_remote ([] :: nat list)) stale_state
          = Some \<lparr>returned = [],
                  state = \<lparr>users = [], loading = False, error_state = None\<rparr>,
                  trace = tr\<rparr>
     \<and> map fst tr = [(0, 999)]
     \<and> map (page_rows \<circ> snd) tr = [0])
   \<and> (\<exists>tr. fetchAllUsers (table_remote (replicate 1000 (7::nat))) stale_state
          = Some \<lparr>returned = replicate 1000 7,
                  state = \<lparr>users = replicate 1000 7, loading = False, error_state = None\<rparr>,
                  trace = tr\<rparr>
     \<and> map fst tr = [(0, 999), (1000, 1999)]
     \<and> map (page_rows \<circ> snd) tr = [1000, 0])
   \<and> (\<exists>tr. fetchAllUsers (table_remote (replicate 1001 (7::nat))) stale_state
          = Some \<lparr>returned = replicate 1001 7,
                  state = \<lparr>users = replicate 1001 7, loading = False, error_state = None\<rparr>,
                  trace = tr\<rparr>
     \<and> map fst tr = [(0, 999), (1000, 1999)]
     \<and> map (page_rows \<circ> snd) tr = [1000, 1])"
proof (intro conjI)
  show "\<exists>tr. fetchAllUsers (table_remote ([] :: nat list)) stale_state
          = Some \<lparr>returned = [],
                  state = \<lparr>users = [], loading = False, error_state = None\<rparr>,
                  trace = tr\<rparr>
     \<and> map fst tr = [(0, 999)]
     \<and> map (page_rows \<circ> snd) tr = [0]"
    using fetchAllUsers_returns_all_rows [of "[] :: nat list" stale_state]
    by (auto simp add: fetchSize_def request_at_def stale_state_def)
  show "\<exists>tr. fetchAllUsers (table_remote (replicate 1000 (7::nat))) stale_state
          = Some \<lparr>returned = replicate 1000 7,
                  state = \<lparr>users = replicate 1000 7, loading = False, error_state = None\<rparr>,
                  trace = tr\<rparr>
     \<and> map fst tr = [(0, 999), (1000, 1999)]
     \<and> map (page_rows \<circ> snd) tr = [1000, 0]"
    using fetchAllUsers_returns_all_rows [of "replicate 1000 (7::nat)" stale_state]
    by (auto simp add: fetchSize_def request_at_def stale_state_def)
  show "\<exists>tr. fetchAllUsers (table_remote (replicate 1001 (7::nat))) stale_state
          = Some \<lparr>returned = replicate 1001 7,
                  state = \<lparr>users = replicate 1001 7, loading = False, error_state = None\<rparr>,
                  trace = tr\<rparr>
     \<and> map fst tr = [(0, 999), (1000, 1999)]
     \<and> map (page_rows \<circ> snd) tr = [1000, 1]"
    using fetchAllUsers_returns_all_rows [of "replicate 1001 (7::nat)" stale_state]
    by (auto simp add: fetchSize_def request_at_def stale_state_def)
qed

section \<open>Filtered event fetch\<close>

lemma chain_if_False: "chain_if False s q = q"
  by (simp add: chain_if_def)

lemma steps_chain: "steps (chain q s) = steps q @ [s]"
  by (simp add: chain_def)

lemma steps_chain_if: "steps (chain_if c s q) = steps q @ (if c then [s] else [])"
  by (simp add: chain_if_def chain_def)

lemma truthy_number_zero: "truthy_number (Some 0) = False" "truthy_number None = False"
  by (simp_all add: truthy_number_def)

lemma or_default_zero: "or_default (Some 0) d = or_default None d"
  by (simp add: or_default_def truthy_number_def)

text \<open>
  Claim C10. The pagination fields are tested for truthiness, so a limit or an offset of
  zero is treated as absent: for every filter descriptor, \<open>limit = 0\<close> builds the same
  query, and against every remote returns the same result, as the descriptor without a
  limit, and likewise for \<open>offset = 0\<close>. The query built for \<open>limit = 0\<close> has no limit
  step and the one built for \<open>offset = 0\<close> has no range step.
\<close>

theorem fetchAnalyticsEvents_zero_is_absent:
  "fetchAnalyticsEvents_query (f\<lparr>limit := Some 0\<rparr>) = fetchAnalyticsEvents_query (f\<lparr>limit := None\<rparr>)
   \<and> fetchAnalyticsEvents_query (f\<lparr>offset := Some 0\<rparr>) = fetchAnalyticsEvents_query (f\<lparr>offset := None\<rparr>)
   \<and> fetchAnalyticsEvents remote (f\<lparr>limit := Some 0\<rparr>) = fetchAnalyticsEvents remote (f\<lparr>limit := None\<rparr>)
   \<and> fetchAnalyticsEvents remote (f\<lparr>offset := Some 0\<rparr>) = fetchAnalyticsEvents remote (f\<lparr>offset := None\<rparr>)
   \<and> \<not> list_ex is_limit (steps (fetchAnalyticsEvents_query (f\<lparr>limit := Some 0\<rparr>)))
   \<and> \<not> list_ex is_range (steps (fetchAnalyticsEvents_query (f\<lparr>offset := Some 0\<rparr>)))"
proof -
  have l: "fetchAnalyticsEvents_query (f\<lparr>limit := Some 0\<rparr>) = fetchAnalyticsEvents_query (f\<lparr>limit := None\<rparr>)"
    by (simp add: fetchAnalyticsEvents_query_def truthy_number_zero or_default_zero chain_if_False Let_def)
  have o: "fetchAnalyticsEvents_query (f\<lparr>offset := Some 0\<rparr>) = fetchAnalyticsEvents_query (f\<lparr>offset := None\<rparr>)"
    by (simp add: fetchAnalyticsEvents_query_def truthy_number_zero chain_if_False Let_def)
  have nl: "\<not> list_ex is_limit (steps (fetchAnalyticsEvents_query (f\<lparr>limit := Some 0\<rparr>)))"
    by (simp add: fetchAnalyticsEvents_query_def truthy_number_zero chain_if_False Let_def
        steps_chain steps_chain_if from_select_def is_limit_def)
  have nr: "\<not> list_ex is_range (steps (fetchAnalyticsEvents_query (f\<lparr>offset := Some 0\<rparr>)))"
    by (simp add: fetchAnalyticsEvents_query_def truthy_number_zero chain_if_False Let_def
        steps_chain steps_chain_if from_select_def is_range_def)
  from l o nl nr show ?thesis
    by (simp add: fetchAnalyticsEvents_def)
qed

section \<open>Event counts by type\<close>

lemma event_counts_index_keys_example:
  "event_counts [ev ''view'' ''u'' ''/'' 0, ev ''10'' ''u'' ''/'' 0, ev ''9'' ''u'' ''/'' 0,
                 ev ''07'' ''u'' ''/'' 0]
   = [\<lparr>ec_eventType = ''9'', ec_count = Number 1\<rparr>, \<lparr>ec_eventType = ''10'', ec_count = Number 1\<rparr>,
      \<lparr>ec_eventType = ''view'', ec_count = Number 1\<rparr>, \<lparr>ec_eventType = ''07'', ec_count = Number 1\<rparr>]"
  by (simp add: event_counts_def count_event_def ev_def inherited_def prototype_members_def
      Object_entries_def is_array_index_def is_digit_def decimal_value_def digit_value_def)

lemma event_counts_inherited_example:
  "event_counts [ev ''constructor'' ''u'' ''/'' 0, ev ''view'' ''u'' ''/'' 0,
                 ev ''constructor'' ''u'' ''/'' 0]
   = [\<lparr>ec_eventType = ''constructor'', ec_count = Appended ''constructor'' 2\<rparr>,
      \<lparr>ec_eventType = ''view'', ec_count = Number 1\<rparr>]"
  by (simp add: event_counts_def count_event_def ev_def inherited_def prototype_members_def
      Object_entries_def is_array_index_def is_digit_def)

lemma inherited_proto: "inherited ''__proto__''"
  by (simp add: inherited_def prototype_members_def)

lemma insort_key_map_fn: "insort_key f (h x) (map h xs) = map h (insort_key (\<lambda>a. f (h a)) x xs)"
  by (induction xs) simp_all

lemma sort_key_map_fn: "sort_key f (map h xs) = map h (sort_key (\<lambda>a. f (h a)) xs)"
  by (induction xs) (simp_all add: insort_key_map_fn)

lemma Object_entries_keyed:
  "Object_entries (map (\<lambda>k. (k, f k)) ks) = map (\<lambda>k. (k, f k)) (enumeration_order ks)"
  by (simp add: Object_entries_def enumeration_order_def filter_map sort_key_map_fn comp_def)

lemma mset_enumeration_order: "mset (enumeration_order ks) = mset ks"
proof -
  have "mset (enumeration_order ks)
      = filter_mset is_array_index (mset ks) + filter_mset (Not \<circ> is_array_index) (mset ks)"
    by (simp add: enumeration_order_def)
  also have "\<dots> = mset ks"
    using multiset_partition [of "mset ks" is_array_index] by (simp add: comp_def)
  finally show ?thesis .
qed

lemma set_enumeration_order: "set (enumeration_order ks) = set ks"
  using mset_enumeration_order [of ks] by (metis set_mset_mset)

lemma distinct_enumeration_order: "distinct (enumeration_order ks) = distinct ks"
  using mset_enumeration_order [of ks] by (rule mset_eq_imp_distinct_iff)

lemma length_enumeration_order: "length (enumeration_order ks) = length ks"
  using mset_enumeration_order [of ks] by (metis size_mset)

lemma filter_enumeration_order:
  "filter (Not \<circ> is_array_index) (enumeration_order ks) = filter (Not \<circ> is_array_index) ks"
  by (simp add: enumeration_order_def filter_empty_conv comp_def)

lemma update_keyed_new:
  "k \<notin> set ks \<Longrightarrow> AList.update k v (map (\<lambda>p. (p, f p)) ks) = map (\<lambda>p. (p, f p)) ks @ [(k, v)]"
  by (induction ks) auto

lemma update_keyed_old:
  "distinct ks \<Longrightarrow> k \<in> set ks \<Longrightarrow>
   AList.update k v (map (\<lambda>p. (p, f p)) ks) = map (\<lambda>p. (p, if p = k then v else f p)) ks"
  by (induction ks) auto

lemma map_of_keyed:
  "map_of (map (\<lambda>p. (p, f p)) ks) k = (if k \<in> set ks then Some (f k) else None)"
  by (induction ks) auto

lemma first_seen_append_one: "first_seen (xs @ [x]) = (if x \<in> set xs then first_seen xs else first_seen xs @ [x])"
  by (simp add: first_seen_def)

lemma set_first_seen: "set (first_seen xs) = set xs"
  by (simp add: first_seen_def)

lemma distinct_first_seen: "distinct (first_seen xs)"
  by (simp add: first_seen_def)

lemma occurrences_snoc:
  "occurrences t (rows @ [e]) = occurrences t rows + (if event_type e = t then 1 else 0)"
  by (simp add: occurrences_def)

lemma occurrences_absent: "t \<notin> event_type ` set rows \<Longrightarrow> occurrences t rows = 0"
  by (auto simp: occurrences_def filter_empty_conv)

lemma eventCounts_closed_form:
  assumes "\<forall>e \<in> set rows. \<not> inherited (event_type e)"
  shows "foldl count_event [] rows
     = map (\<lambda>t. (t, Number (occurrences t rows))) (first_seen (map event_type rows))"
  using assms
proof (induction rows rule: rev_induct)
  case Nil
  show ?case by (simp add: first_seen_def)
next
  case (snoc e rows)
  let ?ks = "first_seen (map event_type rows)"
  let ?t = "event_type e"
  from snoc have m: "foldl count_event [] rows = map (\<lambda>t. (t, Number (occurrences t rows))) ?ks"
    by simp
  from snoc.prems have plain: "\<not> inherited ?t" by simp
  with inherited_proto have np: "?t \<noteq> ''__proto__''" by auto
  have step: "foldl count_event [] (rows @ [e]) = count_event (foldl count_event [] rows) e"
    by simp
  show ?case
  proof (cases "?t \<in> set ?ks")
    case True
    then have look: "map_of (foldl count_event [] rows) ?t = Some (Number (occurrences ?t rows))"
      by (simp add: m map_of_keyed)
    have "count_event (foldl count_event [] rows) e
        = map (\<lambda>p. (p, if p = ?t then Number (occurrences ?t rows + 1) else Number (occurrences p rows))) ?ks"
      using True by (simp add: count_event_def look) (simp add: m update_keyed_old distinct_first_seen)
    also have "\<dots> = map (\<lambda>t. (t, Number (occurrences t (rows @ [e])))) ?ks"
      by (rule map_cong) (auto simp: occurrences_snoc)
    also have "?ks = first_seen (map event_type (rows @ [e]))"
      using True by (simp add: first_seen_append_one set_first_seen)
    finally show ?thesis unfolding step .
  next
    case False
    then have look: "map_of (foldl count_event [] rows) ?t = None"
      by (simp add: m map_of_keyed)
    from False have absent: "?t \<notin> event_type ` set rows"
      by (simp add: set_first_seen)
    have "count_event (foldl count_event [] rows) e
        = map (\<lambda>t. (t, Number (occurrences t rows))) ?ks @ [(?t, Number 1)]"
      using False plain np by (simp add: count_event_def look) (simp add: m update_keyed_new)
    also have "map (\<lambda>t. (t, Number (occurrences t rows))) ?ks
        = map (\<lambda>t. (t, Number (occurrences t (rows @ [e])))) ?ks"
      using False by (intro map_cong) (auto simp: occurrences_snoc)
    also have "[(?t, Number 1)] = map (\<lambda>t. (t, Number (occurrences t (rows @ [e])))) [?t]"
      using absent by (simp add: occurrences_snoc occurrences_absent)
    finally have "count_event (foldl count_event [] rows) e
        = map (\<lambda>t. (t, Number (occurrences t (rows @ [e])))) (?ks @ [?t])"
      by simp
    moreover have "?ks @ [?t] = first_seen (map event_type (rows @ [e]))"
      using False by (simp add: first_seen_append_one set_first_seen)
    ultimately show ?thesis unfolding step by simp
  qed
qed

lemma sum_indicator:
  "distinct ks \<Longrightarrow> x \<in> set ks \<Longrightarrow> sum_list (map (\<lambda>t. if x = t then 1 else 0 :: nat) ks) = 1"
  by (induction ks) auto

lemma sum_occurrences:
  "distinct ks \<Longrightarrow> event_type ` set rows \<subseteq> set ks \<Longrightarrow>
   sum_list (map (\<lambda>t. occurrences t rows) ks) = length rows"
proof (induction rows)
  case Nil
  show ?case by (simp add: occurrences_def)
next
  case (Cons e rows)
  have "sum_list (map (\<lambda>t. occurrences t (e # rows)) ks)
      = sum_list (map (\<lambda>t. (if event_type e = t then 1 else 0) + occurrences t rows) ks)"
    by (intro arg_cong [where f = sum_list] map_cong) (auto simp: occurrences_def)
  also have "\<dots> = sum_list (map (\<lambda>t. if event_type e = t then 1 else 0) ks)
                  + sum_list (map (\<lambda>t. occurrences t rows) ks)"
    by (simp add: sum_list_addf)
  also have "\<dots> = 1 + length rows"
    using Cons by (simp add: sum_indicator)
  finally show ?case by simp
qed

lemma event_counts_closed_form:
  assumes "\<forall>e \<in> set rows. \<not> inherited (event_type e)"
  shows "event_counts rows
     = map (\<lambda>t. \<lparr>ec_eventType = t, ec_count = Number (occurrences t rows)\<rparr>)
         (enumeration_order (first_seen (map event_type rows)))"
  by (simp add: event_counts_def eventCounts_closed_form [OF assms] Object_entries_keyed comp_def)

text \<open>
  Claim C5 as stated fails twice. The entries come out in the enumeration order of the
  record, and nothing sorts them: one \<open>view\<close> followed by two \<open>click\<close>s yields \<open>view\<close> with
  count 1 before \<open>click\<close> with count 2. And an event type that names a member inherited
  from \<open>Object.prototype\<close> is not counted as a number: of the two rows \<open>__proto__\<close> and
  \<open>view\<close> only \<open>view\<close> gets an entry, so the counts sum to 1.
\<close>

theorem fetchEventCountsByType_not_sorted:
  "fetchEventCountsByType (answering three_events) None
     = Inr [\<lparr>ec_eventType = ''view'', ec_count = Number 1\<rparr>,
            \<lparr>ec_eventType = ''click'', ec_count = Number 2\<rparr>]
   \<and> \<not> descending_by_count
          [\<lparr>ec_eventType = ''view'', ec_count = Number 1\<rparr>,
           \<lparr>ec_eventType = ''click'', ec_count = Number 2\<rparr>]
   \<and> fetchEventCountsByType (answering proto_events) None
     = Inr [\<lparr>ec_eventType = ''view'', ec_count = Number 1\<rparr>]
   \<and> map event_type proto_events = [''__proto__'', ''view'']"
  by (simp add: fetchEventCountsByType_def answering_def or_empty_def three_events_def
      proto_events_def event_counts_def count_event_def ev_def inherited_def prototype_members_def
      Object_entries_def is_array_index_def is_digit_def descending_by_count_def
      count_at_least_def)

text \<open>
  Claim C5, amended. Whenever the query succeeds and no event type of the rows received
  is the name of a member inherited from \<open>Object.prototype\<close>, the function returns one
  entry per distinct event type, each with the number of rows of that type, so that the
  counts are numbers that sum to the number of rows; the entries are in the enumeration
  order of the record (event types that are not array indices appear in the order of
  their first row), not sorted by count.
\<close>

theorem fetchEventCountsByType_counts:
  assumes "error (remote (fetchEventCountsByType_query dateRange)) = None"
    and "rows = or_empty (data (remote (fetchEventCountsByType_query dateRange)))"
    and "\<forall>e \<in> set rows. \<not> inherited (event_type e)"
  shows "\<exists>out. fetchEventCountsByType remote dateRange = Inr out
     \<and> out = map (\<lambda>t. \<lparr>ec_eventType = t, ec_count = Number (occurrences t rows)\<rparr>)
               (enumeration_order (first_seen (map event_type rows)))
     \<and> distinct (map ec_eventType out)
     \<and> set (map ec_eventType out) = event_type ` set rows
     \<and> (\<forall>c \<in> set out. ec_count c = Number (occurrences (ec_eventType c) rows))
     \<and> (\<exists>ns. map ec_count out = map Number ns \<and> sum_list ns = length rows)
     \<and> filter (Not \<circ> is_array_index) (map ec_eventType out)
         = first_seen (filter (Not \<circ> is_array_index) (map event_type rows))"
proof -
  let ?ks = "first_seen (map event_type rows)"
  let ?out = "map (\<lambda>t. \<lparr>ec_eventType = t, ec_count = Number (occurrences t rows)\<rparr>)
               (enumeration_order ?ks)"
  have "fetchEventCountsByType remote dateRange = Inr (event_counts rows)"
    using assms(1,2) by (simp add: fetchEventCountsByType_def)
  then have run: "fetchEventCountsByType remote dateRange = Inr ?out"
    by (simp only: event_counts_closed_form [OF assms(3)])
  have types: "map ec_eventType ?out = enumeration_order ?ks"
    by (simp add: comp_def)
  have 1: "distinct (map ec_eventType ?out)"
    by (simp only: types distinct_enumeration_order distinct_first_seen)
  have 2: "set (map ec_eventType ?out) = event_type ` set rows"
    by (simp only: types set_enumeration_order set_first_seen) simp
  have 3: "\<forall>c \<in> set ?out. ec_count c = Number (occurrences (ec_eventType c) rows)"
    by auto
  let ?ns = "map (\<lambda>t. occurrences t rows) (enumeration_order ?ks)"
  have counts: "map ec_count ?out = map Number ?ns"
    by (simp add: comp_def)
  have "mset ?ns = mset (map (\<lambda>t. occurrences t rows) ?ks)"
    by (simp add: mset_enumeration_order)
  then have "sum_list ?ns = sum_list (map (\<lambda>t. occurrences t rows) ?ks)"
    by (metis sum_mset_sum_list)
  also have "\<dots> = length rows"
    by (rule sum_occurrences) (simp_all add: distinct_first_seen set_first_seen)
  finally have 4: "\<exists>ns. map ec_count ?out = map Number ns \<and> sum_list ns = length rows"
    using counts by blast
  have "filter (Not \<circ> is_array_index) (enumeration_order ?ks)
      = first_seen (filter (Not \<circ> is_array_index) (map event_type rows))"
    by (simp add: filter_enumeration_order first_seen_def rev_filter remdups_filter)
  then have 5: "filter (Not \<circ> is_array_index) (map ec_eventType ?out)
         = first_seen (filter (Not \<circ> is_array_index) (map event_type rows))"
    by (simp only: types)
  from run 1 2 3 4 5 show ?thesis by blast
qed

theorem fetchEventCountsByType_counts_witness:
  "error (answering three_events (fetchEventCountsByType_query None)) = None
   \<and> three_events = or_empty (data (answering three_events (fetchEventCountsByType_query None)))
   \<and> list_all (\<lambda>e. \<not> inherited (event_type e)) three_events
   \<and> (\<exists>out. fetchEventCountsByType (answering three_events) None = Inr out
        \<and> distinct (map ec_eventType out)
        \<and> (\<exists>ns. map ec_count out = map Number ns \<and> sum_list ns = length three_events))"
proof -
  have e: "error (answering three_events (fetchEventCountsByType_query None)) = None"
    by (simp add: answering_def)
  have r: "three_events = or_empty (data (answering three_events (fetchEventCountsByType_query None)))"
    by (simp add: answering_def or_empty_def)
  have p: "list_all (\<lambda>e. \<not> inherited (event_type e)) three_events"
    by (simp add: three_events_def ev_def inherited_def prototype_members_def)
  then have p': "\<forall>e \<in> set three_events. \<not> inherited (event_type e)"
    by (simp add: list_all_iff)
  from fetchEventCountsByType_counts [of "answering three_events" None three_events, OF e r p'] e r p
  show ?thesis by blast
qed

section \<open>Date filter\<close>

lemma with_dates_missing_bound:
  "\<not> (truthy_string (bound_startDate d) \<and> truthy_string (bound_endDate d)) \<Longrightarrow> with_dates d q = q"
  by (auto simp: with_dates_def)

lemma sibling_sections_unfiltered:
  assumes "s = None \<or> e = None"
  shows "fetchUsers_query clk Custom \<lparr>bound_startDate = s, bound_endDate = e\<rparr>
           = from_select ''users'' ''*, user_sessions(*)''"
    and "fetchTrafficSources_query clk Custom \<lparr>bound_startDate = s, bound_endDate = e\<rparr>
           = chain (from_select ''user_analytics_events'' ''utm_source, utm_medium, utm_campaign'')
               (NotIsNull ''utm_source'')"
    and "fetchPageAnalytics_query clk Custom \<lparr>bound_startDate = s, bound_endDate = e\<rparr>
           = chain (from_select ''user_analytics_events'' ''page_path, user_id'')
               (NotIsNull ''page_path'')"
  using assms
  by (auto simp: fetchUsers_query_def fetchTrafficSources_query_def fetchPageAnalytics_query_def
      getFilterDates_def with_dates_def truthy_string_def)

text \<open>
  Claim C3 at the event section, with the filter mode \<open>custom\<close> and no bound supplied (the
  state right after the mode is switched): the query issued carries both date steps, with
  \<open>null\<close> bounds, whereas the unfiltered fetch issues none; against a store that serves
  only well-formed bounds the section ends with its error message instead of the counts
  of all rows. With only the end bound missing the start step and a \<open>null\<close> end step are
  issued.
\<close>

theorem fetchEventAnalytics_custom_without_bounds:
  "steps (fetchEventCountsByType_query
      (fetchEventAnalytics_range clk Custom \<lparr>bound_startDate = None, bound_endDate = None\<rparr>))
     = [Gte ''created_at'' JNull, Lte ''created_at'' JNull]
   \<and> steps (fetchEventCountsByType_query
      (fetchEventAnalytics_range clk Custom \<lparr>bound_startDate = Some s, bound_endDate = None\<rparr>))
     = [Gte ''created_at'' (JStr s), Lte ''created_at'' JNull]
   \<and> steps (fetchEventCountsByType_query None) = []
   \<and> fetchEventAnalytics (strict_store rows) clk Custom
        \<lparr>bound_startDate = None, bound_endDate = None\<rparr> st
      = st\<lparr>section_loading := False, section_error := Some ''Failed to fetch event analytics''\<rparr>
   \<and> fetchEventCountsByType (strict_store rows) None = Inr (event_counts rows)"
  by (simp add: fetchEventCountsByType_query_def fetchEventAnalytics_range_def getFilterDates_def
      from_select_def chain_def js_string_def fetchEventAnalytics_def fetchEventCountsByType_def
      strict_store_def null_bound_def or_empty_def)

section \<open>Page performance\<close>

lemma first_seen_snoc: "first_seen (xs @ [x]) = set_add (first_seen xs) x"
  by (simp add: first_seen_def set_add_def)

lemma visit_page_first:
  "\<exists>secs. visit_page [] e
      = [(''undefined'', \<lparr>pe_path = None, pe_visits = 1, pe_uniqueUsers = [user_id e],
                           pe_sections = secs\<rparr>)]"
  by (cases "truthy_string (page_section e)")
    (simp_all add: visit_page_def event_path_def property_key_def Let_def set_add_def)

lemma visit_page_again:
  "\<exists>secs'. visit_page [(''undefined'', \<lparr>pe_path = None, pe_visits = n, pe_uniqueUsers = us,
                                       pe_sections = secs\<rparr>)] e
      = [(''undefined'', \<lparr>pe_path = None, pe_visits = Suc n, pe_uniqueUsers = set_add us (user_id e),
                           pe_sections = secs'\<rparr>)]"
  by (cases "truthy_string (page_section e)")
    (simp_all add: visit_page_def event_path_def property_key_def Let_def)

lemma foldl_visit_page:
  "rows \<noteq> [] \<Longrightarrow>
   \<exists>secs. foldl visit_page [] rows
      = [(''undefined'', \<lparr>pe_path = None, pe_visits = length rows,
                           pe_uniqueUsers = first_seen (map user_id rows), pe_sections = secs\<rparr>)]"
proof (induction rows rule: rev_induct)
  case Nil
  then show ?case by simp
next
  case (snoc e rows)
  have step: "foldl visit_page [] (rows @ [e]) = visit_page (foldl visit_page [] rows) e"
    by simp
  show ?case
  proof (cases "rows = []")
    case True
    with visit_page_first [of e] show ?thesis
      unfolding step by (auto simp: first_seen_def)
  next
    case False
    with snoc.IH obtain secs where m: "foldl visit_page [] rows
      = [(''undefined'', \<lparr>pe_path = None, pe_visits = length rows,
                           pe_uniqueUsers = first_seen (map user_id rows), pe_sections = secs\<rparr>)]"
      by blast
    from visit_page_again [of "length rows" "first_seen (map user_id rows)" secs e]
    show ?thesis
      unfolding step m by (auto simp: first_seen_snoc)
  qed
qed

lemma page_performance_one_group:
  assumes "rows \<noteq> []"
  shows "\<exists>s. page_performance fixed1 rows = [s] \<and> ps_path s = None \<and> ps_visits s = length rows
           \<and> ps_uniqueUsers s = length (first_seen (map user_id rows))"
proof -
  from foldl_visit_page [OF assms] obtain secs where m: "foldl visit_page [] rows
      = [(''undefined'', \<lparr>pe_path = None, pe_visits = length rows,
                           pe_uniqueUsers = first_seen (map user_id rows), pe_sections = secs\<rparr>)]"
    by blast
  have "\<not> is_array_index ''undefined''"
    by (simp add: is_array_index_def is_digit_def)
  then show ?thesis
    by (simp add: page_performance_def m Object_values_def Object_entries_def page_summary_of_def)
qed

text \<open>
  Claim C2 at three rows on two page paths, \<open>/a\<close> (twice, by one user) and \<open>/b\<close> (once, by
  another): the claim expects a summary for \<open>/a\<close> with 2 visits and 1 user and a summary
  for \<open>/b\<close> with 1 visit and 1 user. The function returns a single summary, whose path is
  \<open>undefined\<close>, with 3 visits and 2 users: every row is grouped under the key read from the
  missing property \<open>event_path\<close>.
\<close>

theorem fetchPagePerformance_one_undefined_group:
  "fetchPagePerformance fixed1 (answering three_events)
     = Inr [\<lparr>ps_path = None, ps_visits = 3, ps_uniqueUsers = 2, ps_sections = [],
             ps_avgVisitsPerUser = fixed1 3 2\<rparr>]
   \<and> map page_path three_events = [Some ''/a'', Some ''/a'', Some ''/b'']
   \<and> map user_id three_events = [Some ''u1'', Some ''u1'', Some ''u2'']"
  by (simp add: fetchPagePerformance_def answering_def or_empty_def
      page_performance_def three_events_def ev_def visit_page_def event_path_def
      property_key_def set_add_def truthy_string_def Object_values_def Object_entries_def
      is_array_index_def is_digit_def page_summary_of_def ratio_toFixed1_def)

section \<open>Ratio fields\<close>

lemma guarded_ratios:
  "ps_avgVisitsPerUser (page_summary_of fixed1 page)
     = (if pe_uniqueUsers page = [] then ''0''
        else fixed1 (int (pe_visits page)) (int (length (pe_uniqueUsers page))))"
  "cs_avgEventsPerDay (campaign_summary_of fixed1 campaign)
     = (if ce_uniqueDays campaign = [] then ''0''
        else fixed1 (int (ce_events campaign)) (int (length (ce_uniqueDays campaign))))"
  by (simp_all add: page_summary_of_def campaign_summary_of_def ratio_toFixed1_def)

text \<open>
  Claim C7 at \<open>eventsPerMinute\<close>: the guard of this ratio tests the number of events, not
  the denominator \<open>minutesBack\<close>. With a window of 0 minutes and at least one event in the
  answer the field is \<open>Infinity\<close>, where the claim demands \<open>0\<close>.
\<close>

theorem fetchRealtimeAnalytics_zero_window:
  "\<exists>r. fetchRealtimeAnalytics fixed1 clk (answering (e # es)) 0 = Inr r
      \<and> totalEvents r = length (e # es)
      \<and> timeRange r = ''0 minutes''
      \<and> eventsPerMinute r = ''Infinity''"
  by (simp add: fetchRealtimeAnalytics_def answering_def or_empty_def ratio_toFixed1_def show_int_def)

section \<open>Session detail\<close>

lemma format_duration_example: "format_duration 125000 = ''2m 5s''"
  by (simp add: format_duration_def js_rem_def show_int_def)

lemma format_duration_negative_example: "format_duration (-1500) = ''-1m -2s''"
  by (simp add: format_duration_def js_rem_def show_int_def)

lemma single_empty: "single [] = \<lparr>data = None, error = Some not_single_row\<rparr>"
  by (simp add: single_def)

lemma single_one: "single [x] = \<lparr>data = Some x, error = None\<rparr>"
  by (simp add: single_def)

lemma fetchUserSessionEvents_null_data:
  "error (session_by_id remote sid) = None \<Longrightarrow> data (session_by_id remote sid) = None \<Longrightarrow>
   fetchUserSessionEvents remote sid = ([], Inr None)"
  by (simp add: fetchUserSessionEvents_def)

lemma fetchUserSessionEvents_missing_session:
  assumes "filter (\<lambda>s. ss_id s = sid) (sessions st) = []"
  shows "snd (fetchUserSessionEvents (store_remote st) sid)
     = Inl (handleSupabaseError not_single_row (''fetch user session events for session '' @ sid))"
  using assms by (simp add: fetchUserSessionEvents_def store_remote_def single_empty)

lemma session_duration_never_set:
  "snd (fetchUserSessionEvents remote sid) = Inr (Some d) \<Longrightarrow> session_duration (sessionStats d) = None"
  by (auto simp: fetchUserSessionEvents_def assemble_def session_duration_of_def ended_at_def Let_def
      split: option.splits)

subsection \<open>The per-page summary\<close>

lemma truthy_string_iff: "truthy_string v \<longleftrightarrow> (\<exists>s. v = Some s \<and> s \<noteq> [])"
  by (cases v) (simp_all add: truthy_string_def)

lemma in_paths_visited:
  "p \<in> set (paths_visited evs) \<longleftrightarrow> p \<noteq> [] \<and> visits_to evs p \<noteq> []"
  by (force simp: paths_visited_def set_first_seen visits_to_def filter_empty_conv truthy_string_iff)

lemma paths_visited_snoc:
  "paths_visited (evs @ [e])
     = (if truthy_string (page_path e) \<and> the (page_path e) \<notin> set (paths_visited evs)
        then paths_visited evs @ [the (page_path e)] else paths_visited evs)"
  by (simp add: paths_visited_def first_seen_append_one set_first_seen)

lemma visits_to_snoc:
  "visits_to (evs @ [e]) p = visits_to evs p @ (if page_path e = Some p then [e] else [])"
  by (simp add: visits_to_def)

lemma page_entry_of_other:
  "page_path e \<noteq> Some p \<Longrightarrow> page_entry_of (evs @ [e]) p = page_entry_of evs p"
  by (simp add: page_entry_of_def visits_to_snoc)

lemma page_entry_of_first:
  "visits_to evs p = [] \<Longrightarrow> page_path e = Some p \<Longrightarrow>
   page_entry_of (evs @ [e]) p = \<lparr>pv_count = 1, pv_lastVisited = created_at e\<rparr>"
  by (simp add: page_entry_of_def visits_to_snoc)

lemma page_entry_of_again:
  assumes "visits_to evs p \<noteq> []" and "page_path e = Some p"
  shows "page_entry_of (evs @ [e]) p
     = \<lparr>pv_count = pv_count (page_entry_of evs p) + 1,
        pv_lastVisited = (if pv_lastVisited (page_entry_of evs p) < created_at e then created_at e
                          else pv_lastVisited (page_entry_of evs p))\<rparr>"
proof -
  let ?old = "set (map created_at (visits_to evs p))"
  have ne: "?old \<noteq> {}" using assms(1) by simp
  have "Max (set (map created_at (visits_to evs p @ [e]))) = Max (insert (created_at e) ?old)"
    by simp
  also have "\<dots> = max (created_at e) (Max ?old)"
    using ne by (simp add: Max_insert)
  finally show ?thesis
    using assms(2) by (simp add: page_entry_of_def visits_to_snoc max_def)
qed

lemma page_visit_entry_updates:
  fixes r :: page_visit_entry
  shows "r\<lparr>pv_count := a, pv_lastVisited := b\<rparr> = \<lparr>pv_count = a, pv_lastVisited = b\<rparr>"
    and "r\<lparr>pv_count := a\<rparr> = \<lparr>pv_count = a, pv_lastVisited = pv_lastVisited r\<rparr>"
  by (cases r, simp)+

lemma pageVisitMap_closed_form:
  assumes "\<forall>e \<in> set evs. truthy_string (page_path e) \<longrightarrow> \<not> inherited (the (page_path e))"
  shows "foldl count_page_visit [] evs = map (\<lambda>p. (p, page_entry_of evs p)) (paths_visited evs)"
  using assms
proof (induction evs rule: rev_induct)
  case Nil
  show ?case by (simp add: paths_visited_def first_seen_def)
next
  case (snoc e evs)
  let ?ks = "paths_visited evs"
  let ?m = "foldl count_page_visit [] evs"
  from snoc have m: "?m = map (\<lambda>p. (p, page_entry_of evs p)) ?ks" by simp
  have step: "foldl count_page_visit [] (evs @ [e]) = count_page_visit ?m e" by simp
  show ?case
  proof (cases "truthy_string (page_path e)")
    case False
    then have other: "\<And>p. p \<in> set ?ks \<Longrightarrow> page_path e \<noteq> Some p"
      by (auto simp: in_paths_visited truthy_string_iff)
    have "count_page_visit ?m e = ?m" using False by (simp add: count_page_visit_def)
    also have "\<dots> = map (\<lambda>p. (p, page_entry_of (evs @ [e]) p)) ?ks"
      unfolding m by (rule map_cong) (simp_all add: other page_entry_of_other)
    also have "?ks = paths_visited (evs @ [e])"
      using False by (simp add: paths_visited_snoc)
    finally show ?thesis unfolding step .
  next
    case True
    then obtain k where k: "page_path e = Some k" "k \<noteq> []"
      by (auto simp: truthy_string_iff)
    from snoc.prems True k have plain: "\<not> inherited k" by simp
    show ?thesis
    proof (cases "k \<in> set ?ks")
      case seen: True
      then have ne: "visits_to evs k \<noteq> []" by (simp add: in_paths_visited)
      have look: "map_of ?m k = Some (page_entry_of evs k)"
        using seen by (simp add: m map_of_keyed)
      have "count_page_visit ?m e
          = AList.update k (page_entry_of (evs @ [e]) k) ?m"
        using True k
        by (simp add: count_page_visit_def look Let_def page_entry_of_again [OF ne k(1)]
            page_visit_entry_updates)
      also have "\<dots> = map (\<lambda>p. (p, if p = k then page_entry_of (evs @ [e]) k else page_entry_of evs p)) ?ks"
        unfolding m using seen by (simp add: update_keyed_old paths_visited_def distinct_first_seen)
      also have "\<dots> = map (\<lambda>p. (p, page_entry_of (evs @ [e]) p)) ?ks"
        by (rule map_cong) (auto simp: k page_entry_of_other)
      also have "?ks = paths_visited (evs @ [e])"
        using seen k by (simp add: paths_visited_snoc)
      finally show ?thesis unfolding step .
    next
      case new: False
      with k have none: "visits_to evs k = []" by (simp add: in_paths_visited)
      have look: "map_of ?m k = None"
        using new by (simp add: m map_of_keyed)
      have "count_page_visit ?m e = AList.update k (page_entry_of (evs @ [e]) k) ?m"
        using True k plain
        by (simp add: count_page_visit_def look Let_def page_entry_of_first [OF none k(1)])
      also have "\<dots> = map (\<lambda>p. (p, page_entry_of evs p)) ?ks @ [(k, page_entry_of (evs @ [e]) k)]"
        unfolding m using new by (simp add: update_keyed_new)
      also have "map (\<lambda>p. (p, page_entry_of evs p)) ?ks
          = map (\<lambda>p. (p, page_entry_of (evs @ [e]) p)) ?ks"
        using new by (intro map_cong refl) (metis k(1) option.inject page_entry_of_other)
      finally have "count_page_visit ?m e
          = map (\<lambda>p. (p, page_entry_of (evs @ [e]) p)) (?ks @ [k])"
        by simp
      moreover have "?ks @ [k] = paths_visited (evs @ [e])"
        using new True k by (simp add: paths_visited_snoc)
      ultimately show ?thesis unfolding step by simp
    qed
  qed
qed

lemma page_visits_closed_form:
  assumes "\<forall>e \<in> set evs. truthy_string (page_path e) \<longrightarrow> \<not> inherited (the (page_path e))"
  shows "sort_key (\<lambda>v. - int (visit_count v)) (page_visits_of (foldl count_page_visit [] evs))
           = page_visit_summary evs"
    and "length (Object_keys (foldl count_page_visit [] evs)) = length (paths_visited evs)"
proof -
  have "page_visits_of (foldl count_page_visit [] evs)
      = map (visit_summary evs) (enumeration_order (paths_visited evs))"
    by (simp add: page_visits_of_def pageVisitMap_closed_form [OF assms] Object_entries_keyed
        comp_def visit_summary_def page_entry_of_def)
  then show "sort_key (\<lambda>v. - int (visit_count v)) (page_visits_of (foldl count_page_visit [] evs))
           = page_visit_summary evs"
    by (simp add: page_visit_summary_def)
  show "length (Object_keys (foldl count_page_visit [] evs)) = length (paths_visited evs)"
    by (simp add: Object_keys_def pageVisitMap_closed_form [OF assms] Object_entries_keyed
        length_enumeration_order)
qed

text \<open>
  Claim C4 at a store without any session: the query with \<open>single()\<close> answers the missing
  row with the error \<open>PGRST116\<close>, the error branch comes first and throws, and the branch
  that returns \<open>null\<close> is not reached. The drawer shows the message of a failed fetch, the
  one it shows for any remote error, and not the message for a session that was not
  found.
\<close>

theorem fetchUserSessionEvents_missing_session_throws:
  "snd (fetchUserSessionEvents (store_remote (st\<lparr>sessions := []\<rparr>)) sid)
     = Inl (Error (''Failed to fetch user session events for session '' @ sid
                   @ '': JSON object requested, multiple (or no) rows returned''))
   \<and> snd (fetchUserSessionEvents (store_remote (st\<lparr>sessions := []\<rparr>)) sid) \<noteq> Inr None
   \<and> drawerError (openSessionDrawer (store_remote (st\<lparr>sessions := []\<rparr>)) sid)
       = Some ''Failed to fetch session details''"
proof -
  have "snd (fetchUserSessionEvents (store_remote (st\<lparr>sessions := []\<rparr>)) sid)
     = Inl (handleSupabaseError not_single_row (''fetch user session events for session '' @ sid))"
    by (rule fetchUserSessionEvents_missing_session) simp
  then show ?thesis
    by (simp add: handleSupabaseError_def not_single_row_def openSessionDrawer_def)
qed

text \<open>
  Claim C6 at a session that started at 1000 ms and ended at 126000 ms: the claim expects
  the duration \<open>2m 5s\<close>. The detail is assembled, with the one event of the session, and
  its duration is absent: the session query does not select \<open>ended_at\<close>, so the branch
  that formats the duration is never taken.
\<close>

theorem fetchUserSessionEvents_ended_session_without_duration:
  "(\<exists>d. snd (fetchUserSessionEvents (store_remote ended_store) ''s1'') = Inr (Some d)
        \<and> sessionId d = ''s1''
        \<and> total_events (sessionStats d) = 1
        \<and> session_duration (sessionStats d) = None)
   \<and> ss_ended_at ended_session = Some 126000
   \<and> format_duration (126000 - ss_started_at ended_session) = ''2m 5s''"
proof -
  have s: "session_by_id (store_remote ended_store) ''s1''
      = \<lparr>data = Some (select_session ended_session), error = None\<rparr>"
    by (simp add: store_remote_def ended_store_def ended_session_def single_one)
  have e: "events_by_session (store_remote ended_store) ''s1''
      = \<lparr>data = Some [(ev ''view'' ''u1'' ''/a'' 2000)\<lparr>session_id := Some ''s1''\<rparr>], error = None\<rparr>"
    by (simp add: store_remote_def ended_store_def)
  have "\<exists>d. snd (fetchUserSessionEvents (store_remote ended_store) ''s1'') = Inr (Some d)
        \<and> sessionId d = ''s1''
        \<and> total_events (sessionStats d) = 1
        \<and> session_duration (sessionStats d) = None"
    by (simp add: fetchUserSessionEvents_def s e Let_def assemble_def or_empty_def
        select_session_def ended_session_def session_duration_of_def ended_at_def)
  moreover have "ss_ended_at ended_session = Some 126000"
    by (simp add: ended_session_def)
  moreover have "format_duration (126000 - ss_started_at ended_session) = ''2m 5s''"
    by (simp add: ended_session_def format_duration_def js_rem_def show_int_def)
  ultimately show ?thesis by blast
qed

text \<open>
  Claim C8 as stated fails at a session whose joined user is \<open>null\<close>: the session query
  succeeds, the event query fails and is logged, and the read of \<^verbatim>\<open>data.users.id\<close> throws
  a \<open>TypeError\<close>, so the whole detail fails.
\<close>

theorem fetchUserSessionEvents_without_user_throws:
  "error (session_by_id orphan_remote ''s2'') = None
   \<and> data (session_by_id orphan_remote ''s2'') = Some (select_session orphan_session)
   \<and> failed (events_by_session orphan_remote ''s2'')
   \<and> fetchUserSessionEvents orphan_remote ''s2''
       = ([''Error fetching events:'', ''Error fetching user session events:''], Inl TypeError)
   \<and> drawerError (openSessionDrawer orphan_remote ''s2'') = Some ''Failed to fetch session details''"
proof -
  have s: "session_by_id orphan_remote ''s2''
      = \<lparr>data = Some (select_session orphan_session), error = None\<rparr>"
    by (simp add: orphan_remote_def store_remote_def orphan_session_def single_one)
  have e: "events_by_session orphan_remote ''s2'' = \<lparr>data = None, error = Some outage\<rparr>"
    by (simp add: orphan_remote_def)
  have run: "fetchUserSessionEvents orphan_remote ''s2''
       = ([''Error fetching events:'', ''Error fetching user session events:''], Inl TypeError)"
    by (simp add: fetchUserSessionEvents_def s e Let_def select_session_def orphan_session_def
        events_log_def)
  from s e run show ?thesis
    by (simp add: failed_def openSessionDrawer_def)
qed

text \<open>
  Claim C8, amended. When the session query succeeds and the session has its joined user,
  the function returns the assembled detail whatever the two secondary queries answer:
  it never throws; the identifier, the user and the start are those of the session; the
  event list is the one received, and is empty when the event query failed; the
  subscription has the five fields of the one received, and is absent when the
  subscription query failed. For events whose page paths are not names of inherited
  members the page visits are the per-page summary of the events and \<open>unique_pages\<close> is
  the number of distinct page paths; both are empty and zero when the event query failed.
  A missing subscription (code \<open>PGRST116\<close>) is not even logged.
\<close>

theorem fetchUserSessionEvents_degrades:
  assumes "error (session_by_id remote sid) = None"
    and "data (session_by_id remote sid) = Some s"
    and "sv_users s = Some u"
    and "eventsResp = events_by_session remote sid"
    and "subResp = active_subscription_by_user remote (user_row_id u)"
    and "evs = (case data eventsResp of None \<Rightarrow> [] | Some rows \<Rightarrow> rows)"
  shows "\<exists>d. snd (fetchUserSessionEvents remote sid) = Inr (Some d)
     \<and> sessionId d = sv_id s \<and> user d = u \<and> createdAt d = sv_started_at s
     \<and> events d = evs
     \<and> total_events (sessionStats d) = length evs
     \<and> subscription d
         = (case data subResp of
              None \<Rightarrow> None
            | Some v \<Rightarrow> Some \<lparr>plan_id = plan_id v, status = status v,
                               current_period_end = current_period_end v,
                               plan_type = plan_type v, is_trial = is_trial v\<rparr>)
     \<and> ((\<forall>e \<in> set evs. truthy_string (page_path e) \<longrightarrow> \<not> inherited (the (page_path e)))
          \<longrightarrow> pageVisits d = page_visit_summary evs
              \<and> unique_pages (sessionStats d) = length (paths_visited evs))
     \<and> (failed eventsResp
          \<longrightarrow> events d = [] \<and> pageVisits d = [] \<and> total_events (sessionStats d) = 0
              \<and> unique_pages (sessionStats d) = 0)
     \<and> (failed subResp \<longrightarrow> subscription d = None)
     \<and> ((\<exists>e. error subResp = Some e \<and> code e = ''PGRST116'')
          \<longrightarrow> ''Error fetching subscription:'' \<notin> set (fst (fetchUserSessionEvents remote sid)))"
proof -
  let ?d = "assemble s u evs (data subResp)"
  have evs: "evs = or_empty (data eventsResp)"
    by (simp add: assms(6) or_empty_def)
  have run: "fetchUserSessionEvents remote sid
      = (events_log eventsResp @ subscription_log subResp, Inr (Some ?d))"
    using assms(1-5) by (simp add: fetchUserSessionEvents_def Let_def evs)
  then have r: "snd (fetchUserSessionEvents remote sid) = Inr (Some ?d)"
    by simp
  have fields: "sessionId ?d = sv_id s" "user ?d = u" "createdAt ?d = sv_started_at s"
    "events ?d = evs" "total_events (sessionStats ?d) = length evs"
    by (simp_all add: assemble_def Let_def)
  have sub: "subscription ?d
         = (case data subResp of
              None \<Rightarrow> None
            | Some v \<Rightarrow> Some \<lparr>plan_id = plan_id v, status = status v,
                               current_period_end = current_period_end v,
                               plan_type = plan_type v, is_trial = is_trial v\<rparr>)"
    by (simp add: assemble_def Let_def subscription_of_def)
  have pages: "(\<forall>e \<in> set evs. truthy_string (page_path e) \<longrightarrow> \<not> inherited (the (page_path e)))
          \<longrightarrow> pageVisits ?d = page_visit_summary evs
              \<and> unique_pages (sessionStats ?d) = length (paths_visited evs)"
  proof
    assume plain: "\<forall>e \<in> set evs. truthy_string (page_path e) \<longrightarrow> \<not> inherited (the (page_path e))"
    show "pageVisits ?d = page_visit_summary evs
              \<and> unique_pages (sessionStats ?d) = length (paths_visited evs)"
      by (simp add: assemble_def Let_def page_visits_closed_form [OF plain])
  qed
  have empty: "failed eventsResp
          \<longrightarrow> events ?d = [] \<and> pageVisits ?d = [] \<and> total_events (sessionStats ?d) = 0
              \<and> unique_pages (sessionStats ?d) = 0"
  proof
    assume "failed eventsResp"
    then have "evs = []" by (simp add: assms(6) failed_def)
    then show "events ?d = [] \<and> pageVisits ?d = [] \<and> total_events (sessionStats ?d) = 0
              \<and> unique_pages (sessionStats ?d) = 0"
      by (simp add: assemble_def Let_def page_visits_of_def Object_keys_def Object_entries_def)
  qed
  have nosub: "failed subResp \<longrightarrow> subscription ?d = None"
    by (simp add: assemble_def Let_def subscription_of_def failed_def)
  have log: "(\<exists>e. error subResp = Some e \<and> code e = ''PGRST116'')
          \<longrightarrow> ''Error fetching subscription:'' \<notin> set (fst (fetchUserSessionEvents remote sid))"
    by (auto simp: run events_log_def subscription_log_def split: option.splits)
  from r fields sub pages empty nosub log show ?thesis
    by blast
qed

text \<open>
  Claim C8 at the session \<open>s1\<close> of Alice: with both secondary queries unavailable, and
  with the event query answered and no subscription in the store.
\<close>

theorem fetchUserSessionEvents_degrades_witness:
  "error (session_by_id degraded_remote ''s1'') = None
   \<and> data (session_by_id degraded_remote ''s1'') = Some (select_session ended_session)
   \<and> sv_users (select_session ended_session) = Some alice
   \<and> failed (events_by_session degraded_remote ''s1'')
   \<and> failed (active_subscription_by_user degraded_remote ''u1'')
   \<and> (\<exists>d. snd (fetchUserSessionEvents degraded_remote ''s1'') = Inr (Some d)
        \<and> sessionId d = ''s1'' \<and> user d = alice \<and> events d = [] \<and> pageVisits d = []
        \<and> subscription d = None)
   \<and> failed (active_subscription_by_user (store_remote ended_store) ''u1'')
   \<and> (\<exists>d. snd (fetchUserSessionEvents (store_remote ended_store) ''s1'') = Inr (Some d)
        \<and> events d = [(ev ''view'' ''u1'' ''/a'' 2000)\<lparr>session_id := Some ''s1''\<rparr>]
        \<and> pageVisits d = [\<lparr>visit_page_path = ''/a'', visit_count = 1, last_visited = 2000\<rparr>]
        \<and> unique_pages (sessionStats d) = 1
        \<and> subscription d = None)"
proof -
  have u: "sv_users (select_session ended_session) = Some alice"
    and uid: "user_row_id alice = ''u1''"
    by (simp_all add: select_session_def ended_session_def alice_def)
  have s1: "session_by_id degraded_remote ''s1''
      = \<lparr>data = Some (select_session ended_session), error = None\<rparr>"
    by (simp add: degraded_remote_def store_remote_def ended_store_def ended_session_def single_one)
  have a1: "error (session_by_id degraded_remote ''s1'') = None"
    and a2: "data (session_by_id degraded_remote ''s1'') = Some (select_session ended_session)"
    by (simp_all add: s1)
  have f1: "failed (events_by_session degraded_remote ''s1'')"
    and f2: "failed (active_subscription_by_user degraded_remote ''u1'')"
    by (simp_all add: failed_def degraded_remote_def)
  from fetchUserSessionEvents_degrades [OF a1 a2 u refl refl refl]
  obtain d where d: "snd (fetchUserSessionEvents degraded_remote ''s1'') = Inr (Some d)"
    "sessionId d = sv_id (select_session ended_session)" "user d = alice"
    "failed (events_by_session degraded_remote ''s1'') \<longrightarrow> events d = [] \<and> pageVisits d = []
        \<and> total_events (sessionStats d) = 0 \<and> unique_pages (sessionStats d) = 0"
    "failed (active_subscription_by_user degraded_remote (user_row_id alice)) \<longrightarrow> subscription d = None"
    by blast
  from d f1 f2 have first: "\<exists>d. snd (fetchUserSessionEvents degraded_remote ''s1'') = Inr (Some d)
        \<and> sessionId d = ''s1'' \<and> user d = alice \<and> events d = [] \<and> pageVisits d = []
        \<and> subscription d = None"
    by (auto simp: uid select_session_def ended_session_def)
  let ?e = "(ev ''view'' ''u1'' ''/a'' 2000)\<lparr>session_id := Some ''s1''\<rparr>"
  have s2: "session_by_id (store_remote ended_store) ''s1''
      = \<lparr>data = Some (select_session ended_session), error = None\<rparr>"
    by (simp add: store_remote_def ended_store_def ended_session_def single_one)
  have b1: "error (session_by_id (store_remote ended_store) ''s1'') = None"
    and b2: "data (session_by_id (store_remote ended_store) ''s1'') = Some (select_session ended_session)"
    by (simp_all add: s2)
  have e2: "events_by_session (store_remote ended_store) ''s1'' = \<lparr>data = Some [?e], error = None\<rparr>"
    by (simp add: store_remote_def ended_store_def)
  have g2: "failed (active_subscription_by_user (store_remote ended_store) ''u1'')"
    by (simp add: failed_def store_remote_def ended_store_def single_empty)
  have plain: "\<forall>e \<in> set [?e]. truthy_string (page_path e) \<longrightarrow> \<not> inherited (the (page_path e))"
    by (simp add: ev_def inherited_def prototype_members_def)
  have summary: "page_visit_summary [?e]
      = [\<lparr>visit_page_path = ''/a'', visit_count = 1, last_visited = 2000\<rparr>]"
    and paths: "length (paths_visited [?e]) = 1"
    by (simp_all add: page_visit_summary_def paths_visited_def first_seen_def ev_def
        truthy_string_def enumeration_order_def is_array_index_def is_digit_def
        visit_summary_def visits_to_def)
  from fetchUserSessionEvents_degrades [OF b1 b2 u refl refl refl]
  obtain d' where d': "snd (fetchUserSessionEvents (store_remote ended_store) ''s1'') = Inr (Some d')"
    "events d' = (case data (events_by_session (store_remote ended_store) ''s1'') of
                    None \<Rightarrow> [] | Some rows \<Rightarrow> rows)"
    "(\<forall>e \<in> set (case data (events_by_session (store_remote ended_store) ''s1'') of
                    None \<Rightarrow> [] | Some rows \<Rightarrow> rows).
          truthy_string (page_path e) \<longrightarrow> \<not> inherited (the (page_path e)))
      \<longrightarrow> pageVisits d' = page_visit_summary
             (case data (events_by_session (store_remote ended_store) ''s1'') of
                    None \<Rightarrow> [] | Some rows \<Rightarrow> rows)
         \<and> unique_pages (sessionStats d') = length (paths_visited
             (case data (events_by_session (store_remote ended_store) ''s1'') of
                    None \<Rightarrow> [] | Some rows \<Rightarrow> rows))"
    "failed (active_subscription_by_user (store_remote ended_store) (user_row_id alice))
       \<longrightarrow> subscription d' = None"
    by blast
  from d' g2 plain have second: "\<exists>d. snd (fetchUserSessionEvents (store_remote ended_store) ''s1'') = Inr (Some d)
        \<and> events d = [?e]
        \<and> pageVisits d = [\<lparr>visit_page_path = ''/a'', visit_count = 1, last_visited = 2000\<rparr>]
        \<and> unique_pages (sessionStats d) = 1
        \<and> subscription d = None"
    by (simp add: e2 uid summary paths)
  from a1 a2 u f1 f2 first g2 second show ?thesis
    by blast
qed

end
